theory Spec2Isabelle
  imports Main "HOL-Library.Sublist" "HOL-Library.AList"
begin

section \<open>Python values, exceptions and the interfaces the view consumes\<close>

text \<open>
  The values that travel through \<^verbatim>\<open>async_base_view.py\<close>: what a JSON decoder returns
  (Python's \<^verbatim>\<open>None\<close>, booleans, integers, strings, lists, dicts) and the handle of an
  uploaded file. A dict is an association list: lookup finds the first entry of a key, and
  an update keeps the position of the key, as a Python dict does.
\<close>

datatype pyval =
    PNone
  | PBool bool
  | PInt int
  | PStr string
  | PList "pyval list"
  | PDict "(string \<times> pyval) list"
  | PFile string

datatype operation_type = QUERY | MUTATION | SUBSCRIPTION

text \<open>The exceptions the module raises, catches or lets through.\<close>

datatype exn =
    JSONDecodeError
  | KeyError string
  | ValueError string
  | TypeError
  | AttributeError
  | AssertionError
  | MissingQueryError
  | InvalidOperationTypeError operation_type
  | HTTPException nat string
  | SourceError string

text \<open>\<^verbatim>\<open>ExecutionResult\<close>: the data and the GraphQL-level errors of one result.\<close>

record execution_result =
  data :: pyval
  errors :: "string list"

text \<open>
  The asynchronous iterator inside a \<^verbatim>\<open>SubscriptionExecutionResult\<close>: what it produces,
  in order, each with the time in seconds at which it becomes available. After the last
  event the iterator is exhausted, at time \<open>src_end\<close>. \<open>on_cancel\<close> is what the iterator does
  when the task awaiting it is cancelled: \<open>None\<close> lets the cancellation through,
  \<open>Some e\<close> raises \<open>e\<close> from its clean-up.
\<close>

datatype src_event = Produce execution_result | Fail exn

record subscription_source =
  src_events :: "(nat \<times> src_event) list"
  src_end :: nat
  on_cancel :: "exn option"

datatype execution_outcome =
    ExecutionResult execution_result
  | SubscriptionExecutionResult subscription_source

text \<open>\<^verbatim>\<open>FormData\<close> and \<^verbatim>\<open>AsyncHTTPRequestAdapter\<close> (lines 42-63).\<close>

record form_data =
  form :: "(string \<times> pyval) list"
  files :: "(string \<times> pyval) list"

record request_adapter =
  query_params :: "(string \<times> string) list"
  http_method :: string
  headers :: "(string \<times> string) list"
  content_type :: "string option"
  get_body :: string
  get_form_data :: "exn + form_data"

datatype protocol_t = Http | MultipartSubscription

text \<open>\<^verbatim>\<open>GraphQLRequestData\<close>, the canonical request built at lines 341-346.\<close>

record graphql_request_data =
  query :: pyval
  variables :: pyval
  operation_name :: pyval
  protocol :: protocol_t

datatype response =
    IdeResponse
  | JsonResponse pyval
  | StreamingResponse subscription_source "(string \<times> string) list"

text \<open>
  The members of the view that \<^verbatim>\<open>async_base_view.py\<close> declares abstract, inherits from
  \<^verbatim>\<open>BaseView\<close> or imports, none of which is defined in the file. They are parameters:
  every theorem below holds for each choice of them unless it says otherwise.
  \<^item> \<open>parse_json\<close> and \<open>parse_query_params\<close> decode text; \<open>None\<close> is the decoder's
    \<^verbatim>\<open>JSONDecodeError\<close>, the one failure the module handles for them (line 112);
  \<^item> \<open>parse_content_type\<close> splits a content-type header into the mime type and its
    parameters; \<open>is_multipart_subscriptions\<close> recognises the subscription marker;
  \<^item> \<open>schema_execute\<close> and \<open>schema_subscribe\<close> are the execution engine, with the
    arguments in the order of the calls at lines 126-141;
  \<^item> \<open>create_streaming_response\<close> is \<open>None\<close> for a view that keeps the default of lines
    96-103, which raises \<^verbatim>\<open>ValueError\<close>.
\<close>

record view =
  allow_queries_via_get :: bool
  graphql_ide :: bool
  parse_json :: "string \<Rightarrow> pyval option"
  parse_query_params :: "(string \<times> string) list \<Rightarrow> pyval option"
  parse_content_type :: "string \<Rightarrow> string \<times> (string \<times> string) list"
  is_multipart_subscriptions :: "string \<Rightarrow> (string \<times> string) list \<Rightarrow> bool"
  encode_json :: "pyval \<Rightarrow> string"
  is_request_allowed :: "request_adapter \<Rightarrow> bool"
  should_render_graphql_ide :: "request_adapter \<Rightarrow> bool"
  get_context :: pyval
  get_root_value :: pyval
  process_result :: "execution_result \<Rightarrow> pyval"
  as_http_error_reason :: "operation_type \<Rightarrow> string \<Rightarrow> string"
  schema_execute ::
    "pyval \<Rightarrow> pyval \<Rightarrow> pyval \<Rightarrow> pyval \<Rightarrow> pyval \<Rightarrow> operation_type set \<Rightarrow> exn + execution_outcome"
  schema_subscribe ::
    "pyval \<Rightarrow> pyval \<Rightarrow> pyval \<Rightarrow> pyval \<Rightarrow> pyval \<Rightarrow> exn + execution_outcome"
  create_streaming_response ::
    "(subscription_source \<Rightarrow> (string \<times> string) list \<Rightarrow> response) option"

section \<open>Helpers of Python's data model\<close>

text \<open>\<^verbatim>\<open>needle in haystack\<close> on strings.\<close>

fun str_contains :: "string \<Rightarrow> string \<Rightarrow> bool" where
  "str_contains needle [] = (needle = [])"
| "str_contains needle (c # cs) = (prefix needle (c # cs) \<or> str_contains needle cs)"

text \<open>
  \<^verbatim>\<open>data.get(key)\<close>: the value of the key, \<^verbatim>\<open>None\<close> when the dict has no such key; a
  value that is not a dict has no \<^verbatim>\<open>get\<close>.
\<close>

fun dict_get :: "pyval \<Rightarrow> string \<Rightarrow> exn + pyval" where
  "dict_get (PDict kvs) k = Inr (case map_of kvs k of None \<Rightarrow> PNone | Some x \<Rightarrow> x)"
| "dict_get _ k = Inl AttributeError"

text \<open>Python's truth value of an object, for \<^verbatim>\<open>assert context\<close> (line 197).\<close>

fun truthy :: "pyval \<Rightarrow> bool" where
  "truthy PNone = False"
| "truthy (PBool b) = b"
| "truthy (PInt i) = (i \<noteq> 0)"
| "truthy (PStr s) = (s \<noteq> [])"
| "truthy (PList xs) = (xs \<noteq> [])"
| "truthy (PDict kvs) = (kvs \<noteq> [])"
| "truthy (PFile h) = True"

section \<open>File uploads\<close>

text \<open>\<^verbatim>\<open>path.split(".")\<close>.\<close>

fun split_dots :: "string \<Rightarrow> string list" where
  "split_dots [] = [[]]"
| "split_dots (c # cs) =
     (if c = CHR ''.'' then [] # split_dots cs
      else (case split_dots cs of [] \<Rightarrow> [[c]] | w # ws \<Rightarrow> (c # w) # ws))"

text \<open>
  Modelled from the spec: \<^verbatim>\<open>replace_placeholders_with_files\<close> of
  \<^verbatim>\<open>strawberry.file_uploads.utils\<close> is imported at line 23 and is not in the source. The
  spec (4.1, and the upload scenario of section 8): the placeholders found in \<open>map\<close> are
  substituted with the uploaded file handles of the form, and a referenced file that is
  absent from the file set is a missing-upload error, which the callers catch as
  \<^verbatim>\<open>KeyError\<close> (lines 115 and 162). Each entry of \<open>map\<close> names an upload and the
  dot-separated paths inside \<open>operations\<close> that receive its handle.
\<close>

fun assign_path :: "string list \<Rightarrow> pyval \<Rightarrow> pyval \<Rightarrow> exn + pyval" where
  "assign_path [] file target = Inr file"
| "assign_path [k] file (PDict kvs) = Inr (PDict (AList.update k file kvs))"
| "assign_path (k # ks) file (PDict kvs) =
     (case map_of kvs k of
        None \<Rightarrow> Inl (KeyError k)
      | Some sub \<Rightarrow>
          (case assign_path ks file sub of
             Inl e \<Rightarrow> Inl e
           | Inr sub' \<Rightarrow> Inr (PDict (AList.update k sub' kvs))))"
| "assign_path (k # ks) file target = Inl TypeError"

fun assign_paths :: "pyval list \<Rightarrow> pyval \<Rightarrow> pyval \<Rightarrow> exn + pyval" where
  "assign_paths [] file operations = Inr operations"
| "assign_paths (PStr path # paths) file operations =
     (case assign_path (split_dots path) file operations of
        Inl e \<Rightarrow> Inl e
      | Inr operations' \<Rightarrow> assign_paths paths file operations')"
| "assign_paths (p # paths) file operations = Inl AttributeError"

fun replace_entries ::
  "(string \<times> pyval) list \<Rightarrow> (string \<times> pyval) list \<Rightarrow> pyval \<Rightarrow> exn + pyval" where
  "replace_entries [] fs operations = Inr operations"
| "replace_entries ((field, paths) # entries) fs operations =
     (case map_of fs field of
        None \<Rightarrow> Inl (KeyError field)
      | Some file \<Rightarrow>
          (case paths of
             PList ps \<Rightarrow>
               (case assign_paths ps file operations of
                  Inl e \<Rightarrow> Inl e
                | Inr operations' \<Rightarrow> replace_entries entries fs operations')
           | _ \<Rightarrow> Inl TypeError))"

fun replace_placeholders_with_files ::
  "pyval \<Rightarrow> pyval \<Rightarrow> (string \<times> pyval) list \<Rightarrow> exn + pyval" where
  "replace_placeholders_with_files operations (PDict files_map) fs =
     replace_entries files_map fs operations"
| "replace_placeholders_with_files operations files_map fs = Inl AttributeError"

section \<open>Parsing a request (lines 143-163 and 312-346)\<close>

text \<open>
  \<^verbatim>\<open>form_data["form"].get(name, "{}")\<close> followed by the \<^verbatim>\<open>isinstance\<close> test of lines
  152-156: a field that is text is decoded with \<open>parse_json\<close>, any other value is used as
  it is.
\<close>

definition form_field :: "view \<Rightarrow> (string \<times> pyval) list \<Rightarrow> string \<Rightarrow> exn + pyval" where
  "form_field v flds name =
     (case (case map_of flds name of None \<Rightarrow> PStr ''{}'' | Some x \<Rightarrow> x) of
        PStr s \<Rightarrow> (case parse_json v s of None \<Rightarrow> Inl JSONDecodeError | Some d \<Rightarrow> Inr d)
      | other \<Rightarrow> Inr other)"

text \<open>
  \<^verbatim>\<open>except ValueError\<close> (line 146) catches \<^verbatim>\<open>ValueError\<close> and its subclasses, of which
  \<^verbatim>\<open>json.JSONDecodeError\<close> is one. The \<^verbatim>\<open>try\<close> block holds the call of
  \<^verbatim>\<open>get_form_data\<close> alone (lines 144-147); the decoding of the two fields comes after it.
\<close>

definition is_value_error :: "exn \<Rightarrow> bool" where
  "is_value_error e = (case e of ValueError m \<Rightarrow> True | JSONDecodeError \<Rightarrow> True | _ \<Rightarrow> False)"

definition parse_multipart :: "view \<Rightarrow> request_adapter \<Rightarrow> exn + pyval" where
  "parse_multipart v request =
     (case get_form_data request of
        Inl e \<Rightarrow>
          if is_value_error e
          then Inl (HTTPException 400 ''Unable to parse the multipart body'')
          else Inl e
      | Inr fd \<Rightarrow>
          (case form_field v (form fd) ''operations'' of
             Inl e \<Rightarrow> Inl e
           | Inr operations \<Rightarrow>
               (case form_field v (form fd) ''map'' of
                  Inl e \<Rightarrow> Inl e
                | Inr files_map \<Rightarrow>
                    (case replace_placeholders_with_files operations files_map (files fd) of
                       Inl (KeyError k) \<Rightarrow> Inl (HTTPException 400 ''File(s) missing in form data'')
                     | Inl e \<Rightarrow> Inl e
                     | Inr d \<Rightarrow> Inr d))))"

definition parse_multipart_subscriptions :: "view \<Rightarrow> request_adapter \<Rightarrow> exn + pyval" where
  "parse_multipart_subscriptions v request =
     (if http_method request = ''GET'' then
        (case parse_query_params v (query_params request) of
           None \<Rightarrow> Inl JSONDecodeError | Some d \<Rightarrow> Inr d)
      else
        (case parse_json v (get_body request) of
           None \<Rightarrow> Inl JSONDecodeError | Some d \<Rightarrow> Inr d))"

text \<open>The constructor call of lines 341-346.\<close>

definition make_request_data :: "pyval \<Rightarrow> protocol_t \<Rightarrow> exn + graphql_request_data" where
  "make_request_data d p =
     (case dict_get d ''query'' of
        Inl e \<Rightarrow> Inl e
      | Inr q \<Rightarrow>
          (case dict_get d ''variables'' of
             Inl e \<Rightarrow> Inl e
           | Inr vs \<Rightarrow>
               (case dict_get d ''operationName'' of
                  Inl e \<Rightarrow> Inl e
                | Inr n \<Rightarrow>
                    Inr \<lparr>query = q, variables = vs, operation_name = n, protocol = p\<rparr>)))"

definition parse_http_body :: "view \<Rightarrow> request_adapter \<Rightarrow> exn + graphql_request_data" where
  "parse_http_body v request =
     (let (ct, params) =
            parse_content_type v (case content_type request of None \<Rightarrow> [] | Some c \<Rightarrow> c)
      in
        if http_method request = ''GET'' then
          (case parse_query_params v (query_params request) of
             None \<Rightarrow> Inl JSONDecodeError
           | Some d \<Rightarrow>
               make_request_data d
                 (if is_multipart_subscriptions v ct params then MultipartSubscription else Http))
        else if str_contains ''application/json'' ct then
          (case parse_json v (get_body request) of
             None \<Rightarrow> Inl JSONDecodeError
           | Some d \<Rightarrow> make_request_data d Http)
        else if ct = ''multipart/form-data'' then
          (case parse_multipart v request of
             Inl e \<Rightarrow> Inl e
           | Inr d \<Rightarrow> make_request_data d Http)
        else if is_multipart_subscriptions v ct params then
          (case parse_multipart_subscriptions v request of
             Inl e \<Rightarrow> Inl e
           | Inr d \<Rightarrow> make_request_data d MultipartSubscription)
        else Inl (HTTPException 400 ''Unsupported content type''))"

section \<open>Dispatch (lines 105-141 and 170-230)\<close>

text \<open>
  Modelled from the spec: \<^verbatim>\<open>OperationType.from_http\<close> of \<^verbatim>\<open>strawberry.types.graphql\<close> is
  imported at line 33 and is not in the source. The spec (section 3, OperationKind): the
  set is computed from the HTTP method, GET gives \<open>{query}\<close> and POST gives
  \<open>{query, mutation, subscription}\<close>. It names no set for any other method, which is an
  error here.
\<close>

definition from_http :: "string \<Rightarrow> exn + operation_type set" where
  "from_http m =
     (if m = ''GET'' then Inr {QUERY}
      else if m = ''POST'' then Inr {QUERY, MUTATION, SUBSCRIPTION}
      else Inl (ValueError ''Unsupported HTTP method''))"

text \<open>Lines 118-121: the set handed to the engine.\<close>

definition allowed_operation_types :: "view \<Rightarrow> request_adapter \<Rightarrow> exn + operation_type set" where
  "allowed_operation_types v request =
     (case from_http (http_method request) of
        Inl e \<Rightarrow> Inl e
      | Inr allowed \<Rightarrow>
          Inr (if \<not> allow_queries_via_get v \<and> http_method request = ''GET''
               then allowed - {QUERY} else allowed))"

definition execute_operation ::
  "view \<Rightarrow> request_adapter \<Rightarrow> pyval \<Rightarrow> pyval \<Rightarrow> exn + execution_outcome" where
  "execute_operation v request ctxt root_value =
     (case parse_http_body v request of
        Inl JSONDecodeError \<Rightarrow> Inl (HTTPException 400 ''Unable to parse request body as JSON'')
      | Inl (KeyError k) \<Rightarrow> Inl (HTTPException 400 ''File(s) missing in form data'')
      | Inl e \<Rightarrow> Inl e
      | Inr request_data \<Rightarrow>
          (case allowed_operation_types v request of
             Inl e \<Rightarrow> Inl e
           | Inr allowed \<Rightarrow>
               if protocol request_data = MultipartSubscription then
                 schema_subscribe v (query request_data) (variables request_data) ctxt
                   root_value (operation_name request_data)
               else
                 schema_execute v (query request_data) root_value (variables request_data)
                   ctxt (operation_name request_data) allowed))"

text \<open>The headers of the streaming response, lines 217-220.\<close>

definition streaming_headers :: "(string \<times> string) list" where
  "streaming_headers =
     [(''Transfer-Encoding'', ''chunked''),
      (''Content-Type'',
       ''multipart/mixed;boundary=graphql;subscriptionSpec=1.0,application/json'')]"

text \<open>
  \<^verbatim>\<open>run\<close>. The arguments \<open>ctxt\<close> and \<open>root_value\<close> are \<open>None\<close> for \<^verbatim>\<open>UNSET\<close>. The
  sub-response is passed through to the host's response constructors untouched and is
  left out; \<^verbatim>\<open>_handle_errors\<close> is the empty hook of lines 165-168.
\<close>

definition run ::
  "view \<Rightarrow> request_adapter \<Rightarrow> pyval option \<Rightarrow> pyval option \<Rightarrow> exn + response" where
  "run v request ctxt root_value =
     (if \<not> is_request_allowed v request then
        Inl (HTTPException 405 ''GraphQL only supports GET and POST requests.'')
      else if should_render_graphql_ide v request then
        (if graphql_ide v then Inr IdeResponse else Inl (HTTPException 404 ''Not Found''))
      else
        (let ctxt' = (case ctxt of None \<Rightarrow> get_context v | Some c \<Rightarrow> c);
             root_value' = (case root_value of None \<Rightarrow> get_root_value v | Some r \<Rightarrow> r)
         in
           if \<not> truthy ctxt' then Inl AssertionError
           else
             (case execute_operation v request ctxt' root_value' of
                Inl (InvalidOperationTypeError k) \<Rightarrow>
                  Inl (HTTPException 400 (as_http_error_reason v k (http_method request)))
              | Inl MissingQueryError \<Rightarrow>
                  Inl (HTTPException 400 ''No GraphQL query found in the request'')
              | Inl e \<Rightarrow> Inl e
              | Inr (SubscriptionExecutionResult src) \<Rightarrow>
                  (case create_streaming_response v of
                     None \<Rightarrow> Inl (ValueError ''Multipart responses are not supported'')
                   | Some mk \<Rightarrow> Inr (mk src streaming_headers))
              | Inr (ExecutionResult r) \<Rightarrow> Inr (JsonResponse (process_result v r)))))"

text \<open>
  Modelled from the spec: the execution engine (\<^verbatim>\<open>BaseSchema.execute\<close> and
  \<^verbatim>\<open>BaseSchema.subscribe\<close>) is imported at line 30 and is not in the source. The spec
  (4.3): the engine rejects with \<^verbatim>\<open>MissingQuery\<close> when the query is null or absent, and
  with \<^verbatim>\<open>InvalidOperationType\<close> when it determines that the parsed query's operation kind
  is not among the allowed kinds; every other failure is data inside the result.
  \<open>kind_of\<close> is the engine's determination of the kind (\<open>None\<close> for a text it cannot
  parse) and \<open>resolve\<close> its evaluation. \<^verbatim>\<open>subscribe\<close> is called without a set of allowed
  kinds (lines 126-132), so it has none to check.
\<close>

definition engine_execute ::
  "(pyval \<Rightarrow> operation_type option) \<Rightarrow> (pyval \<Rightarrow> pyval \<Rightarrow> pyval \<Rightarrow> execution_outcome) \<Rightarrow>
   pyval \<Rightarrow> pyval \<Rightarrow> pyval \<Rightarrow> pyval \<Rightarrow> pyval \<Rightarrow> operation_type set \<Rightarrow> exn + execution_outcome" where
  "engine_execute kind_of resolve q root_value vs ctxt opname allowed =
     (if q = PNone then Inl MissingQueryError
      else
        (case kind_of q of
           None \<Rightarrow> Inr (resolve q vs opname)
         | Some k \<Rightarrow>
             if k \<in> allowed then Inr (resolve q vs opname)
             else Inl (InvalidOperationTypeError k)))"

definition engine_subscribe ::
  "(pyval \<Rightarrow> pyval \<Rightarrow> pyval \<Rightarrow> execution_outcome) \<Rightarrow>
   pyval \<Rightarrow> pyval \<Rightarrow> pyval \<Rightarrow> pyval \<Rightarrow> pyval \<Rightarrow> exn + execution_outcome" where
  "engine_subscribe resolve q vs ctxt root_value opname =
     (if q = PNone then Inl MissingQueryError else Inr (resolve q vs opname))"

section \<open>Multipart framing (lines 232-240)\<close>

definition encode_multipart_data :: "view \<Rightarrow> pyval \<Rightarrow> string \<Rightarrow> string" where
  "encode_multipart_data v d separator =
     concat
       [[CHR 0x0D, CHR 0x0A] @ ''--'' @ separator @ [CHR 0x0D, CHR 0x0A],
        ''Content-Type: application/json'' @ [CHR 0x0D, CHR 0x0A, CHR 0x0D, CHR 0x0A],
        encode_json v d,
        [CHR 0x0A]]"

section \<open>The heartbeat multiplexer (lines 242-310)\<close>

text \<open>
  The frames of a subscription response: one part per result (lines 305-306), the closing
  boundary that \<^verbatim>\<open>stream\<close> yields once the results are exhausted (line 308), and the
  heartbeat part with the empty object (line 262). \<^verbatim>\<open>run\<close> calls \<^verbatim>\<open>_get_stream\<close> with its
  default separator, \<open>graphql\<close>.
\<close>

definition result_frame :: "view \<Rightarrow> execution_result \<Rightarrow> string" where
  "result_frame v r =
     encode_multipart_data v (PDict [(''payload'', process_result v r)]) ''graphql''"

definition closing_frame :: "string \<Rightarrow> string" where
  "closing_frame separator =
     [CHR 0x0D, CHR 0x0A] @ ''--'' @ separator @ ''--'' @ [CHR 0x0D, CHR 0x0A]"

definition heartbeat_frame :: "view \<Rightarrow> string" where
  "heartbeat_frame v = encode_multipart_data v (PDict []) ''graphql''"

definition heartbeat_interval :: nat where
  "heartbeat_interval = 5"

text \<open>
  The closure of \<^verbatim>\<open>_stream_with_heartbeat\<close> as a state, and its three coroutines as
  transitions on it. asyncio runs one coroutine at a time and switches only where a
  coroutine suspends, so a transition is what a coroutine does between two suspensions:
  \<^item> \<open>queue\<close> is \<^verbatim>\<open>asyncio.Queue(1)\<close>: \<^verbatim>\<open>put\<close> suspends while the slot is taken, \<^verbatim>\<open>get\<close>
    suspends while it is empty, and neither suspends otherwise. The items put are
    \<^verbatim>\<open>(False, frame)\<close>, here \<open>QFrame\<close>, and \<^verbatim>\<open>(True, e)\<close>, here \<open>QError\<close>;
  \<^item> \<open>task\<close> is the drain task: awaiting the next item of \<^verbatim>\<open>stream()\<close>, suspended in
    \<^verbatim>\<open>put\<close> with an item, returned, ended with an exception, or cancelled;
  \<^item> \<open>heartbeat_task\<close> is at its \<^verbatim>\<open>put\<close>, asleep until a time, or cancelled;
  \<^item> \<open>consumer\<close> is the generator \<^verbatim>\<open>merged\<close>: suspended in \<^verbatim>\<open>get\<close>, suspended at its
    \<^verbatim>\<open>yield\<close>, or ended (exhausted, closed by its consumer, or with an exception);
  \<^item> \<open>source\<close> holds the events the subscription has yet to produce, \<open>stream_done\<close> says
    that \<^verbatim>\<open>stream()\<close> has yielded its last frame or has raised;
  \<^item> \<open>out\<close> is the sequence of frames yielded so far; \<open>trail\<close> records the steps of
    \<^verbatim>\<open>cancel_tasks\<close> in the order they are taken.
\<close>

datatype queue_item = QFrame string | QError exn

datatype drain_state = DAwait | DPut queue_item | DFinished | DFailed exn | DCancelled

datatype heartbeat_state = HPut | HSleep nat | HCancelled

datatype consumer_state = CGet | CYield | CFinished | CClosed | CRaised exn

datatype teardown_event =
  SetCancelling | CancelDrain | AwaitDrain | CancelHeartbeat | AwaitHeartbeat

record mux =
  clock :: nat
  queue :: "queue_item option"
  cancelling :: bool
  task :: drain_state
  heartbeat_task :: heartbeat_state
  consumer :: consumer_state
  source :: subscription_source
  stream_done :: bool
  out :: "string list"
  trail :: "teardown_event list"

text \<open>
  The state when \<^verbatim>\<open>merged\<close> first suspends: both tasks are created (lines 267-268) and
  have not run, the drain task is not done, and the queue is empty, so the generator waits
  in \<^verbatim>\<open>queue.get()\<close> (line 285).
\<close>

definition start :: "subscription_source \<Rightarrow> mux" where
  "start src =
     \<lparr>clock = 0, queue = None, cancelling = False, task = DAwait, heartbeat_task = HPut,
      consumer = CGet, source = src, stream_done = False, out = [], trail = []\<rparr>"

text \<open>\<^verbatim>\<open>task.done()\<close>.\<close>

definition task_done :: "drain_state \<Rightarrow> bool" where
  "task_done d = (case d of DAwait \<Rightarrow> False | DPut item \<Rightarrow> False | _ \<Rightarrow> True)"

text \<open>
  What the generator \<^verbatim>\<open>stream\<close> (lines 303-308) does when asked for its next item at the
  present time: it is still waiting for the subscription, it yields a frame, it raises
  what the subscription raised, or it is exhausted. \<open>stream_advance\<close> is the generator's
  state after that.
\<close>

datatype stream_step = Pending | Yields string | Raises exn | Stops

definition stream_next :: "view \<Rightarrow> mux \<Rightarrow> stream_step" where
  "stream_next v s =
     (if stream_done s then Stops
      else
        (case src_events (source s) of
           [] \<Rightarrow>
             if clock s < src_end (source s) then Pending
             else Yields (closing_frame ''graphql'')
         | (t, ev) # rest \<Rightarrow>
             if clock s < t then Pending
             else (case ev of Produce r \<Rightarrow> Yields (result_frame v r) | Fail e \<Rightarrow> Raises e)))"

definition stream_advance :: "mux \<Rightarrow> mux" where
  "stream_advance s =
     (case src_events (source s) of
        [] \<Rightarrow> s\<lparr>stream_done := True\<rparr>
      | (t, Produce r) # rest \<Rightarrow> s\<lparr>source := (source s)\<lparr>src_events := rest\<rparr>\<rparr>
      | (t, Fail e) # rest \<Rightarrow> s\<lparr>stream_done := True\<rparr>)"

text \<open>
  \<^verbatim>\<open>drain\<close> (lines 250-258). \<open>drain_put\<close> is \<^verbatim>\<open>await queue.put(item)\<close> and what follows it
  without a suspension: with the slot free the item is stored and the task goes on, to
  its end when the item was the error or the last frame of \<^verbatim>\<open>stream()\<close> (the next
  request to the generator ends the loop at once); with the slot taken the task suspends in
  \<^verbatim>\<open>put\<close>. \<open>drain_on_exception\<close> is the \<^verbatim>\<open>except\<close> block.
\<close>

definition after_put :: "queue_item \<Rightarrow> mux \<Rightarrow> drain_state" where
  "after_put item s =
     (case item of
        QError e \<Rightarrow> DFinished
      | QFrame f \<Rightarrow> if stream_done s then DFinished else DAwait)"

definition drain_put :: "queue_item \<Rightarrow> mux \<Rightarrow> mux" where
  "drain_put item s =
     (case queue s of
        None \<Rightarrow> s\<lparr>queue := Some item, task := after_put item s\<rparr>
      | Some other \<Rightarrow> s\<lparr>task := DPut item\<rparr>)"

definition drain_on_exception :: "exn \<Rightarrow> mux \<Rightarrow> mux" where
  "drain_on_exception e s =
     (if \<not> cancelling s then drain_put (QError e) s else s\<lparr>task := DFailed e\<rparr>)"

definition drain_step :: "view \<Rightarrow> mux \<Rightarrow> mux option" where
  "drain_step v s =
     (case task s of
        DAwait \<Rightarrow>
          (case stream_next v s of
             Pending \<Rightarrow> None
           | Yields f \<Rightarrow> Some (drain_put (QFrame f) (stream_advance s))
           | Raises e \<Rightarrow> Some (drain_on_exception e (stream_advance s))
           | Stops \<Rightarrow> Some (s\<lparr>task := DFinished\<rparr>))
      | DPut item \<Rightarrow> (case queue s of None \<Rightarrow> Some (drain_put item s) | Some other \<Rightarrow> None)
      | _ \<Rightarrow> None)"

text \<open>
  \<^verbatim>\<open>heartbeat\<close> (lines 260-264): put a frame, sleep for the interval, again. The task runs
  when it is at its \<^verbatim>\<open>put\<close> and the slot is free, or when its sleep is over.
\<close>

definition heartbeat_put :: "view \<Rightarrow> mux \<Rightarrow> mux" where
  "heartbeat_put v s =
     (case queue s of
        None \<Rightarrow>
          s\<lparr>queue := Some (QFrame (heartbeat_frame v)),
            heartbeat_task := HSleep (clock s + heartbeat_interval)\<rparr>
      | Some other \<Rightarrow> s\<lparr>heartbeat_task := HPut\<rparr>)"

definition heartbeat_step :: "view \<Rightarrow> mux \<Rightarrow> mux option" where
  "heartbeat_step v s =
     (case heartbeat_task s of
        HPut \<Rightarrow> (case queue s of None \<Rightarrow> Some (heartbeat_put v s) | Some other \<Rightarrow> None)
      | HSleep w \<Rightarrow> if clock s < w then None else Some (heartbeat_put v s)
      | HCancelled \<Rightarrow> None)"

text \<open>
  \<^verbatim>\<open>cancel_tasks\<close> (lines 270-281), with the exception it ends with, if any.
  \<^verbatim>\<open>task.cancel()\<close> throws \<^verbatim>\<open>CancelledError\<close> into the drain task where it is suspended.
  Suspended in \<^verbatim>\<open>put\<close>, the task ends cancelled: \<^verbatim>\<open>except Exception\<close> does not catch
  \<^verbatim>\<open>CancelledError\<close>. Suspended in \<^verbatim>\<open>stream()\<close>, the subscription receives the
  cancellation, and either lets it through or raises from its clean-up, which the
  \<^verbatim>\<open>except\<close> block of \<^verbatim>\<open>drain\<close> then handles. A task that is done is left as it is.
  \<^verbatim>\<open>await task\<close> raises what the task ended with; only \<^verbatim>\<open>CancelledError\<close> is suppressed, so
  an exception of the drain task leaves \<^verbatim>\<open>cancel_tasks\<close> before the heartbeat task is
  touched. The heartbeat task has no handler and always ends cancelled. What the
  heartbeat task does while \<^verbatim>\<open>cancel_tasks\<close> awaits is not modelled: nothing reads the
  queue any more.
\<close>

definition cancel_drain :: "mux \<Rightarrow> mux" where
  "cancel_drain s =
     (case task s of
        DAwait \<Rightarrow>
          (case on_cancel (source s) of
             None \<Rightarrow> s\<lparr>task := DCancelled\<rparr>
           | Some e \<Rightarrow> drain_on_exception e (s\<lparr>stream_done := True\<rparr>))
      | DPut item \<Rightarrow> s\<lparr>task := DCancelled\<rparr>
      | _ \<Rightarrow> s)"

definition cancel_tasks :: "mux \<Rightarrow> exn option \<times> mux" where
  "cancel_tasks s =
     (let s1 = cancel_drain (s\<lparr>cancelling := True, trail := trail s @ [SetCancelling, CancelDrain]\<rparr>);
          s2 = s1\<lparr>trail := trail s1 @ [AwaitDrain]\<rparr>
      in
        case task s2 of
          DFailed e \<Rightarrow> (Some e, s2)
        | _ \<Rightarrow>
            (None,
             s2\<lparr>heartbeat_task := HCancelled,
                trail := trail s2 @ [CancelHeartbeat, AwaitHeartbeat]\<rparr>))"

text \<open>
  \<^verbatim>\<open>merged\<close> (lines 266-293). \<open>leave_loop\<close> is the \<^verbatim>\<open>finally\<close> block: \<^verbatim>\<open>cancel_tasks\<close> runs
  and the generator ends as it was about to, unless \<^verbatim>\<open>cancel_tasks\<close> raises, which
  replaces that. \<open>receive\<close> is the loop body after \<^verbatim>\<open>queue.get()\<close> has returned an item.
\<close>

definition leave_loop :: "consumer_state \<Rightarrow> mux \<Rightarrow> mux" where
  "leave_loop ending s =
     (case cancel_tasks s of
        (None, s') \<Rightarrow> s'\<lparr>consumer := ending\<rparr>
      | (Some e, s') \<Rightarrow> s'\<lparr>consumer := CRaised e\<rparr>)"

definition receive :: "queue_item \<Rightarrow> mux \<Rightarrow> mux" where
  "receive item s =
     (case item of
        QFrame f \<Rightarrow> s\<lparr>out := out s @ [f], consumer := CYield\<rparr>
      | QError e \<Rightarrow>
          (case cancel_tasks s of
             (None, s') \<Rightarrow> leave_loop (CRaised e) s'
           | (Some e', s') \<Rightarrow> leave_loop (CRaised e') s'))"

text \<open>
  The generator runs when an item arrives while it waits in \<^verbatim>\<open>get\<close>, and when its
  consumer asks for the next frame while it is at its \<^verbatim>\<open>yield\<close>: then the loop condition
  is tested, and \<^verbatim>\<open>get\<close> returns at once if the slot is taken.
\<close>

definition consumer_step :: "mux \<Rightarrow> mux option" where
  "consumer_step s =
     (case consumer s of
        CGet \<Rightarrow>
          (case queue s of
             None \<Rightarrow> None
           | Some item \<Rightarrow> Some (receive item (s\<lparr>queue := None\<rparr>)))
      | CYield \<Rightarrow>
          if task_done (task s) then Some (leave_loop CFinished s)
          else
            (case queue s of
               None \<Rightarrow> Some (s\<lparr>consumer := CGet\<rparr>)
             | Some item \<Rightarrow> Some (receive item (s\<lparr>queue := None\<rparr>)))
      | _ \<Rightarrow> None)"

text \<open>
  The consumer of the output stops reading: it closes the generator at its \<^verbatim>\<open>yield\<close>
  (\<^verbatim>\<open>GeneratorExit\<close>), or it is cancelled while the generator waits in \<^verbatim>\<open>get\<close>. Both run
  the \<^verbatim>\<open>finally\<close> block.
\<close>

definition abandon_step :: "mux \<Rightarrow> mux option" where
  "abandon_step s =
     (case consumer s of
        CGet \<Rightarrow> Some (leave_loop CClosed s)
      | CYield \<Rightarrow> Some (leave_loop CClosed s)
      | _ \<Rightarrow> None)"

text \<open>
  A schedule is the order in which the event loop runs the coroutines, the moments at
  which the consumer of the output abandons it, and the passing of time in seconds.
  \<open>step\<close> is \<open>None\<close> when the actor cannot run in the state.
\<close>

datatype actor = Consumer | Heartbeat | Drain | Abandon | Tick

definition step :: "view \<Rightarrow> actor \<Rightarrow> mux \<Rightarrow> mux option" where
  "step v a s =
     (case a of
        Consumer \<Rightarrow> consumer_step s
      | Heartbeat \<Rightarrow> heartbeat_step v s
      | Drain \<Rightarrow> drain_step v s
      | Abandon \<Rightarrow> abandon_step s
      | Tick \<Rightarrow> Some (s\<lparr>clock := Suc (clock s)\<rparr>))"

fun exec :: "view \<Rightarrow> actor list \<Rightarrow> mux \<Rightarrow> mux option" where
  "exec v [] s = Some s"
| "exec v (a # as) s = (case step v a s of None \<Rightarrow> None | Some s' \<Rightarrow> exec v as s')"

text \<open>
  The run with a consumer that asks for the next frame as soon as it has one and never
  abandons: the generator runs whenever it can, then the heartbeat task, then the drain
  task, and time passes only when none of them can run. The run stops when the generator
  has ended or the fuel is used up.
\<close>

definition next_actor :: "view \<Rightarrow> mux \<Rightarrow> actor" where
  "next_actor v s =
     (if consumer_step s \<noteq> None then Consumer
      else if heartbeat_step v s \<noteq> None then Heartbeat
      else if drain_step v s \<noteq> None then Drain
      else Tick)"


text \<open>The order of a complete \<^verbatim>\<open>cancel_tasks\<close>, and of one that stops at \<^verbatim>\<open>await task\<close>.\<close>

definition teardown_order :: "teardown_event list" where
  "teardown_order = [SetCancelling, CancelDrain, AwaitDrain, CancelHeartbeat, AwaitHeartbeat]"

definition teardown_cut :: "teardown_event list" where
  "teardown_cut = [SetCancelling, CancelDrain, AwaitDrain]"

text \<open>
  The invariant of the multiplexer. While the generator is in its loop nothing has
  cancelled anything: the flag is down, \<^verbatim>\<open>cancel_tasks\<close> has not started and the drain task
  has neither failed nor been cancelled. An error in the queue was put there by the drain
  task's last step. Once the generator has left the loop, \<^verbatim>\<open>cancel_tasks\<close> has run: once
  or twice to its end, with the heartbeat task cancelled, or once up to \<^verbatim>\<open>await task\<close>,
  which raised what the drain task ended with.
\<close>

definition running :: "mux \<Rightarrow> bool" where
  "running s = (consumer s = CGet \<or> consumer s = CYield)"

definition inv_running :: "mux \<Rightarrow> bool" where
  "inv_running s =
     (\<not> cancelling s \<and> trail s = [] \<and> task s \<noteq> DCancelled \<and> (\<forall>e. task s \<noteq> DFailed e))"

definition inv_queue :: "mux \<Rightarrow> bool" where
  "inv_queue s = (\<forall>e. queue s = Some (QError e) \<longrightarrow> task s = DFinished)"

definition inv_left :: "mux \<Rightarrow> bool" where
  "inv_left s =
     (cancelling s \<and> task_done (task s) \<and>
      ((trail s = teardown_order \<or> trail s = teardown_order @ teardown_order) \<and>
         heartbeat_task s = HCancelled \<and> (\<forall>e. task s \<noteq> DFailed e)
       \<or> (\<exists>e. trail s = teardown_cut \<and> task s = DFailed e \<and> consumer s = CRaised e)))"

definition mux_inv :: "mux \<Rightarrow> bool" where
  "mux_inv s =
     ((running s \<longrightarrow> inv_running s) \<and> (\<not> running s \<longrightarrow> inv_left s) \<and> inv_queue s)"




section \<open>The spec's decision table and boundary search\<close>

text \<open>
  The decision table of the spec (4.1), written from its words to be compared with the
  \<^verbatim>\<open>if\<close> chain of \<^verbatim>\<open>parse_http_body\<close>: the strategy is a function of the method, the
  mime type and the subscription marker. The rows the table gives for POST are taken for
  every method other than GET, which is how the source is written.
\<close>

datatype strategy =
  QueryStringParse | JsonBodyParse | MultipartFormParse | MultipartSubscriptionParse

definition spec_strategy :: "string \<Rightarrow> string \<Rightarrow> bool \<Rightarrow> strategy option" where
  "spec_strategy m mime marker =
     (if m = ''GET'' then Some QueryStringParse
      else if str_contains ''application/json'' mime then Some JsonBodyParse
      else if mime = ''multipart/form-data'' then Some MultipartFormParse
      else if marker then Some MultipartSubscriptionParse
      else None)"

definition spec_protocol :: "strategy \<Rightarrow> bool \<Rightarrow> protocol_t" where
  "spec_protocol s marker =
     (case s of
        QueryStringParse \<Rightarrow> (if marker then MultipartSubscription else Http)
      | JsonBodyParse \<Rightarrow> Http
      | MultipartFormParse \<Rightarrow> Http
      | MultipartSubscriptionParse \<Rightarrow> MultipartSubscription)"

definition apply_strategy :: "view \<Rightarrow> request_adapter \<Rightarrow> strategy \<Rightarrow> exn + pyval" where
  "apply_strategy v request s =
     (case s of
        QueryStringParse \<Rightarrow>
          (case parse_query_params v (query_params request) of
             None \<Rightarrow> Inl JSONDecodeError | Some d \<Rightarrow> Inr d)
      | JsonBodyParse \<Rightarrow>
          (case parse_json v (get_body request) of
             None \<Rightarrow> Inl JSONDecodeError | Some d \<Rightarrow> Inr d)
      | MultipartFormParse \<Rightarrow> parse_multipart v request
      | MultipartSubscriptionParse \<Rightarrow> parse_multipart_subscriptions v request)"

text \<open>
  Locating the boundary markers in a multipart body: \<^verbatim>\<open>text.split(marker)\<close>, the pieces
  between the occurrences of the marker, read from the left. The marker of a part is the
  line \<open>boundary_line\<close> that \<^verbatim>\<open>encode_multipart_data\<close> writes first; \<open>part_header\<close> is the
  header it writes next, with the empty line that ends the headers. \<open>decode_multipart\<close>
  reads a body back: it splits the body at the boundary lines, drops what stands before
  the first, and takes from each part the text between the header and the final newline
  (\<open>None\<close> for a part that has not that shape).
\<close>

fun split_text :: "string \<Rightarrow> string \<Rightarrow> string list" where
  "split_text marker [] = [[]]"
| "split_text marker (c # cs) =
     (if marker \<noteq> [] \<and> prefix marker (c # cs)
      then [] # split_text marker (drop (length marker) (c # cs))
      else (case split_text marker cs of [] \<Rightarrow> [[c]] | p # ps \<Rightarrow> (c # p) # ps))"

definition boundary_line :: "string \<Rightarrow> string" where
  "boundary_line separator = [CHR 0x0D, CHR 0x0A] @ ''--'' @ separator @ [CHR 0x0D, CHR 0x0A]"

definition part_header :: string where
  "part_header = ''Content-Type: application/json'' @ [CHR 0x0D, CHR 0x0A, CHR 0x0D, CHR 0x0A]"

definition part_payload :: "string \<Rightarrow> string option" where
  "part_payload p =
     (if prefix part_header p \<and> p \<noteq> part_header \<and> last p = CHR 0x0A
      then Some (butlast (drop (length part_header) p)) else None)"

definition decode_multipart :: "string \<Rightarrow> string option list" where
  "decode_multipart body = map part_payload (tl (split_text (boundary_line ''graphql'') body))"

text \<open>No occurrence of the marker starts inside \<open>t\<close> when \<open>t\<close> is followed by \<open>rest\<close>.\<close>

fun no_start :: "string \<Rightarrow> string \<Rightarrow> string \<Rightarrow> bool" where
  "no_start m [] rest = True"
| "no_start m (c # cs) rest = (\<not> prefix m (c # cs @ rest) \<and> no_start m cs rest)"

section \<open>A sample view\<close>

text \<open>
  One concrete view and request, for evaluating the definitions. Its JSON encoder is
  \<^verbatim>\<open>json.dumps\<close> without the escaping of characters inside strings; its decoder is
  \<^verbatim>\<open>json.loads\<close> at the texts the examples use and fails on every other text; its engine is
  the engine of the spec, which reads the operation kind off the first keyword of the query.
\<close>

fun digits :: "nat \<Rightarrow> string" where
  "digits n =
     (if n < 10 then [''0123456789'' ! n]
      else digits (n div 10) @ [''0123456789'' ! (n mod 10)])"

declare digits.simps [simp del]

fun join :: "string \<Rightarrow> string list \<Rightarrow> string" where
  "join sep [] = []"
| "join sep [x] = x"
| "join sep (x # y # ys) = x @ sep @ join sep (y # ys)"

fun sample_encode_json :: "pyval \<Rightarrow> string" where
  "sample_encode_json PNone = ''null''"
| "sample_encode_json (PBool b) = (if b then ''true'' else ''false'')"
| "sample_encode_json (PInt i) = (if i < 0 then ''-'' @ digits (nat (- i)) else digits (nat i))"
| "sample_encode_json (PStr s) = [CHR 0x22] @ s @ [CHR 0x22]"
| "sample_encode_json (PList xs) = ''['' @ join '', '' (map sample_encode_json xs) @ '']''"
| "sample_encode_json (PDict kvs) =
     ''{'' @ join '', ''
        (map (\<lambda>(k, x). [CHR 0x22] @ k @ [CHR 0x22] @ '': '' @ sample_encode_json x) kvs) @ ''}''"
| "sample_encode_json (PFile h) = ''null''"

definition sample_json_loads :: "string \<Rightarrow> pyval option" where
  "sample_json_loads s =
     (if s = ''{}'' then Some (PDict [])
      else if s = ''{\"query\":\"{hello}\"}'' then Some (PDict [(''query'', PStr ''{hello}'')])
      else if s = ''{\"query\":\"{ upload(file: $f) }\",\"variables\":{\"f\":null}}'' then
        Some (PDict [(''query'', PStr ''{ upload(file: $f) }''),
                     (''variables'', PDict [(''f'', PNone)])])
      else if s = ''{\"f\":[\"variables.f\"]}'' then
        Some (PDict [(''f'', PList [PStr ''variables.f''])])
      else None)"

definition sample_kind_of :: "pyval \<Rightarrow> operation_type option" where
  "sample_kind_of q =
     (case q of
        PStr text \<Rightarrow>
          Some (if prefix ''mutation'' text then MUTATION
                else if prefix ''subscription'' text then SUBSCRIPTION
                else QUERY)
      | _ \<Rightarrow> None)"

definition sample_resolve :: "pyval \<Rightarrow> pyval \<Rightarrow> pyval \<Rightarrow> execution_outcome" where
  "sample_resolve q vs opname =
     (if sample_kind_of q = Some SUBSCRIPTION
      then SubscriptionExecutionResult \<lparr>src_events = [], src_end = 0, on_cancel = None\<rparr>
      else ExecutionResult \<lparr>data = PDict [(''hello'', PStr ''world'')], errors = []\<rparr>)"

definition sample_view :: view where
  "sample_view =
     \<lparr>allow_queries_via_get = False,
      graphql_ide = False,
      parse_json = sample_json_loads,
      parse_query_params = (\<lambda>ps. Some (PDict (map (\<lambda>(k, x). (k, PStr x)) ps))),
      parse_content_type = (\<lambda>s. (takeWhile (\<lambda>c. c \<noteq> CHR '';'') s, [])),
      is_multipart_subscriptions = (\<lambda>ct ps. ct = ''multipart/mixed''),
      encode_json = sample_encode_json,
      is_request_allowed = (\<lambda>r. http_method r = ''GET'' \<or> http_method r = ''POST''),
      should_render_graphql_ide = (\<lambda>r. False),
      get_context = PDict [(''request'', PNone)],
      get_root_value = PNone,
      process_result = (\<lambda>r. PDict [(''data'', data r)]),
      as_http_error_reason =
        (\<lambda>k m. (case k of QUERY \<Rightarrow> ''queries'' | MUTATION \<Rightarrow> ''mutations''
                  | SUBSCRIPTION \<Rightarrow> ''subscriptions'') @ '' are not allowed when using '' @ m),
      schema_execute = engine_execute sample_kind_of sample_resolve,
      schema_subscribe = engine_subscribe sample_resolve,
      create_streaming_response = Some StreamingResponse\<rparr>"

definition sample_request ::
  "string \<Rightarrow> string option \<Rightarrow> (string \<times> string) list \<Rightarrow> string \<Rightarrow> form_data \<Rightarrow> request_adapter" where
  "sample_request m ct qs body fd =
     \<lparr>query_params = qs, http_method = m, headers = [], content_type = ct, get_body = body,
      get_form_data = Inr fd\<rparr>"

text \<open>
  Sample subscriptions: one that produces results after 1, 2 and 8 seconds and is then
  exhausted, one that produces a single result and is exhausted at once, one that raises
  at once, and one that is slow and raises from its clean-up when it is cancelled.
\<close>

definition sample_result :: "string \<Rightarrow> execution_result" where
  "sample_result name = \<lparr>data = PStr name, errors = []\<rparr>"


definition sample_single :: subscription_source where
  "sample_single =
     \<lparr>src_events = [(0, Produce (sample_result ''one''))], src_end = 0, on_cancel = None\<rparr>"

definition sample_failing :: subscription_source where
  "sample_failing =
     \<lparr>src_events = [(0, Fail (SourceError ''boom''))], src_end = 0, on_cancel = None\<rparr>"

definition sample_unclean :: subscription_source where
  "sample_unclean =
     \<lparr>src_events = [(60, Produce (sample_result ''late''))], src_end = 60,
      on_cancel = Some (SourceError ''cleanup'')\<rparr>"

section \<open>Facts about the HTTP path\<close>

lemma run_execute:
  assumes "is_request_allowed v request" "\<not> should_render_graphql_ide v request" "truthy c"
  shows "run v request (Some c) (Some root) =
     (case execute_operation v request c root of
        Inl (InvalidOperationTypeError k) \<Rightarrow>
          Inl (HTTPException 400 (as_http_error_reason v k (http_method request)))
      | Inl MissingQueryError \<Rightarrow>
          Inl (HTTPException 400 ''No GraphQL query found in the request'')
      | Inl e \<Rightarrow> Inl e
      | Inr (SubscriptionExecutionResult src) \<Rightarrow>
          (case create_streaming_response v of
             None \<Rightarrow> Inl (ValueError ''Multipart responses are not supported'')
           | Some mk \<Rightarrow> Inr (mk src streaming_headers))
      | Inr (ExecutionResult r) \<Rightarrow> Inr (JsonResponse (process_result v r)))"
  using assms by (simp add: run_def)

lemma make_request_data_not_http: "make_request_data d p \<noteq> Inl (HTTPException n m)"
  by (cases d) (simp_all add: make_request_data_def)

lemma split_text_nonempty: "split_text m t \<noteq> []"
  by (cases t) (simp_all split: list.split)

lemma split_text_skip:
  "no_start m t rest \<Longrightarrow>
   split_text m (t @ rest) = (case split_text m rest of [] \<Rightarrow> [t] | p # ps \<Rightarrow> (t @ p) # ps)"
proof (induction t)
  case Nil
  show ?case by (cases "split_text m rest") (simp_all add: split_text_nonempty)
next
  case (Cons c cs)
  then show ?case by (simp split: list.split)
qed

lemma no_prefix_through:
  "x \<in> set p \<Longrightarrow> x \<notin> set a \<Longrightarrow> c \<noteq> x \<Longrightarrow> c \<notin> set (takeWhile (\<lambda>y. y \<noteq> x) p) \<Longrightarrow>
   \<not> prefix p (a @ c # rest)"
proof (induction a arbitrary: p)
  case Nil
  show ?case
  proof (cases p)
    case Nil
    with Nil.prems show ?thesis by simp
  next
    case (Cons p0 ps)
    with Nil.prems show ?thesis by (cases "p0 = x") auto
  qed
next
  case (Cons a0 a)
  show ?case
  proof (cases p)
    case Nil
    with Cons.prems show ?thesis by simp
  next
    case (Cons p0 ps)
    with Cons.prems Cons.IH [of ps] show ?thesis by (cases "p0 = x") auto
  qed
qed

lemma no_start_payload:
  "CHR 0x0D \<notin> set payload \<Longrightarrow> no_start (CHR 0x0D # m) (payload @ [CHR 0x0A]) rest"
  by (induction payload) auto

lemma no_start_part:
  assumes "CHR 0x0D \<notin> set payload"
  shows "no_start (boundary_line ''graphql'') (part_header @ payload @ [CHR 0x0A]) rest"
proof -
  have a: "\<not> prefix (''--graphql'' @ [CHR 0x0D, CHR 0x0A]) (payload @ CHR 0x0A # rest)"
    using assms by (intro no_prefix_through [of "CHR 0x0D"]) simp_all
  have b: "no_start (boundary_line ''graphql'') (payload @ [CHR 0x0A]) rest"
    using assms by (simp add: boundary_line_def no_start_payload)
  from a b show ?thesis
    by (simp add: part_header_def boundary_line_def)
qed

lemma encode_as_part:
  "encode_multipart_data v d ''graphql''
     = boundary_line ''graphql'' @ (part_header @ encode_json v d @ [CHR 0x0A])"
  by (simp add: encode_multipart_data_def boundary_line_def part_header_def)

lemma split_text_at_marker: "m \<noteq> [] \<Longrightarrow> split_text m (m @ t) = [] # split_text m t"
  by (cases m) simp_all

lemma split_text_frames:
  assumes "\<forall>d \<in> set ds. CHR 0x0D \<notin> set (encode_json v d)"
  shows "split_text (boundary_line ''graphql'')
           (concat (map (\<lambda>d. encode_multipart_data v d ''graphql'') ds))
         = [] # map (\<lambda>d. part_header @ encode_json v d @ [CHR 0x0A]) ds"
  using assms
proof (induction ds)
  case Nil
  show ?case by simp
next
  case (Cons d ds)
  have ne: "boundary_line ''graphql'' \<noteq> []" by (simp add: boundary_line_def)
  from Cons.prems have cr: "CHR 0x0D \<notin> set (encode_json v d)" by simp
  from Cons have ih: "split_text (boundary_line ''graphql'')
           (concat (map (\<lambda>d. encode_multipart_data v d ''graphql'') ds))
         = [] # map (\<lambda>d. part_header @ encode_json v d @ [CHR 0x0A]) ds" by simp
  have "split_text (boundary_line ''graphql'')
          (concat (map (\<lambda>d. encode_multipart_data v d ''graphql'') (d # ds)))
      = [] # split_text (boundary_line ''graphql'')
          ((part_header @ encode_json v d @ [CHR 0x0A])
            @ concat (map (\<lambda>d. encode_multipart_data v d ''graphql'') ds))"
    using split_text_at_marker [OF ne] by (simp add: encode_as_part)
  also have "split_text (boundary_line ''graphql'')
          ((part_header @ encode_json v d @ [CHR 0x0A])
            @ concat (map (\<lambda>d. encode_multipart_data v d ''graphql'') ds))
      = (part_header @ encode_json v d @ [CHR 0x0A])
          # map (\<lambda>d. part_header @ encode_json v d @ [CHR 0x0A]) ds"
    unfolding split_text_skip [OF no_start_part [OF cr]] ih by simp
  finally show ?case by simp
qed

lemma part_payload_part: "part_payload (part_header @ payload @ [CHR 0x0A]) = Some payload"
  by (simp add: part_payload_def butlast_append)

section \<open>Allowed operation kinds\<close>

text \<open>
  C2, as stated, fails. The claim: for every request, an operation whose kind is not in
  the set allowed for the method and the flag is rejected with the invalid-operation-type
  error. \<^verbatim>\<open>execute_operation\<close> computes the set and then, for a request of the
  multipart-subscription protocol, calls \<^verbatim>\<open>subscribe\<close> without it. Here a GET with the
  subscription marker carries a subscription while \<open>allow_queries_via_get\<close> is off: the
  allowed set is empty, the operation's kind is not in it, and the request is answered
  with the streaming response.
\<close>

theorem subscribe_ignores_allowed_kinds:
  "allowed_operation_types sample_view
      (sample_request ''GET'' (Some ''multipart/mixed'') [(''query'', ''subscription { count }'')]
         [] \<lparr>form = [], files = []\<rparr>) = Inr {}
   \<and> sample_kind_of (PStr ''subscription { count }'') = Some SUBSCRIPTION
   \<and> run sample_view
      (sample_request ''GET'' (Some ''multipart/mixed'') [(''query'', ''subscription { count }'')]
         [] \<lparr>form = [], files = []\<rparr>) None None
     = Inr (StreamingResponse \<lparr>src_events = [], src_end = 0, on_cancel = None\<rparr>
              streaming_headers)"
  by (simp add: allowed_operation_types_def from_http_def sample_view_def sample_request_def
      sample_kind_of_def run_def execute_operation_def parse_http_body_def make_request_data_def
      engine_subscribe_def sample_resolve_def)

text \<open>
  C2, amended: for every request that is parsed to the \<open>http\<close> protocol, the set of allowed
  kinds is \<open>{query, mutation, subscription}\<close> for POST and, for GET, \<open>{query}\<close> when
  \<open>allow_queries_via_get\<close> is set and the empty set otherwise; the engine of the spec is
  called with that set, so an operation whose kind is not in it is rejected with
  \<^verbatim>\<open>InvalidOperationTypeError\<close>, which \<^verbatim>\<open>run\<close> turns into HTTP 400. In particular every query
  sent by GET is rejected when the flag is off, whatever its text.
\<close>

theorem allowed_kinds_enforced:
  assumes engine: "schema_execute v = engine_execute kind_of resolve"
    and parsed: "parse_http_body v request = Inr rd" "protocol rd = Http"
    and q: "query rd \<noteq> PNone" "kind_of (query rd) = Some k"
    and allowed: "allowed_operation_types v request = Inr allowed" "k \<notin> allowed"
    and admitted: "is_request_allowed v request" "\<not> should_render_graphql_ide v request" "truthy c"
  shows "execute_operation v request c root = Inl (InvalidOperationTypeError k)
    \<and> run v request (Some c) (Some root) =
        Inl (HTTPException 400 (as_http_error_reason v k (http_method request)))
    \<and> allowed = (if http_method request = ''GET''
                 then (if allow_queries_via_get v then {QUERY} else {})
                 else {QUERY, MUTATION, SUBSCRIPTION})"
proof -
  have ex: "execute_operation v request c root = Inl (InvalidOperationTypeError k)"
    using engine parsed q allowed by (simp add: execute_operation_def engine_execute_def)
  have r: "run v request (Some c) (Some root) =
        Inl (HTTPException 400 (as_http_error_reason v k (http_method request)))"
    using admitted ex by (simp add: run_execute)
  have a: "allowed = (if http_method request = ''GET''
                 then (if allow_queries_via_get v then {QUERY} else {})
                 else {QUERY, MUTATION, SUBSCRIPTION})"
    using allowed(1) by (auto simp: allowed_operation_types_def from_http_def split: if_splits)
  from ex r a show ?thesis by simp
qed

theorem allowed_kinds_enforced_witness:
  "run sample_view
      (sample_request ''GET'' None [(''query'', ''{hello}'')] [] \<lparr>form = [], files = []\<rparr>)
      (Some (PBool True)) (Some PNone)
    = Inl (HTTPException 400 ''queries are not allowed when using GET'')"
  using allowed_kinds_enforced [of sample_view sample_kind_of sample_resolve
      "sample_request ''GET'' None [(''query'', ''{hello}'')] [] \<lparr>form = [], files = []\<rparr>"
      "\<lparr>query = PStr ''{hello}'', variables = PNone, operation_name = PNone, protocol = Http\<rparr>"
      QUERY "{}" "PBool True" PNone]
  by (simp add: sample_view_def sample_request_def parse_http_body_def make_request_data_def
      sample_kind_of_def allowed_operation_types_def from_http_def)

section \<open>Parsing\<close>

text \<open>
  C6: every request is parsed by exactly one strategy, a function of the method and the
  content type alone: \<^verbatim>\<open>parse_http_body\<close> is the spec's decision table followed by the one
  parser the table names, with no second attempt. When the table names none (a method
  other than GET with a content type that matches no row) the result is the
  unsupported-content-type error with status 400; a GET is parsed from its query
  parameters under every content type and never has that error.
\<close>

theorem parse_strategy_selection:
  assumes ct: "parse_content_type v (case content_type request of None \<Rightarrow> [] | Some c \<Rightarrow> c)
                 = (mime, params)"
  shows "parse_http_body v request =
      (case spec_strategy (http_method request) mime (is_multipart_subscriptions v mime params) of
         None \<Rightarrow> Inl (HTTPException 400 ''Unsupported content type'')
       | Some s \<Rightarrow>
           (case apply_strategy v request s of
              Inl e \<Rightarrow> Inl e
            | Inr d \<Rightarrow>
                make_request_data d
                  (spec_protocol s (is_multipart_subscriptions v mime params))))
    \<and> (http_method request = ''GET'' \<longrightarrow>
         parse_http_body v request \<noteq> Inl (HTTPException 400 ''Unsupported content type''))"
proof -
  have get: "parse_http_body v request \<noteq> Inl (HTTPException 400 ''Unsupported content type'')"
    if "http_method request = ''GET''"
    using that ct
    by (simp add: parse_http_body_def make_request_data_not_http split: option.splits)
  have eq: "parse_http_body v request =
      (case spec_strategy (http_method request) mime (is_multipart_subscriptions v mime params) of
         None \<Rightarrow> Inl (HTTPException 400 ''Unsupported content type'')
       | Some s \<Rightarrow>
           (case apply_strategy v request s of
              Inl e \<Rightarrow> Inl e
            | Inr d \<Rightarrow>
                make_request_data d
                  (spec_protocol s (is_multipart_subscriptions v mime params))))"
  proof (cases "http_method request = ''GET''")
    case True
    with ct show ?thesis
      by (simp add: parse_http_body_def spec_strategy_def spec_protocol_def apply_strategy_def
          split: option.split sum.split)
  next
    case False
    with ct show ?thesis
      by (simp add: parse_http_body_def spec_strategy_def spec_protocol_def apply_strategy_def
          split: option.split sum.split)
  qed
  from get eq show ?thesis by blast
qed

theorem parse_strategy_selection_witness:
  "parse_http_body sample_view
      (sample_request ''POST'' (Some ''text/plain'') [] ''hello'' \<lparr>form = [], files = []\<rparr>)
     = Inl (HTTPException 400 ''Unsupported content type'')
   \<and> parse_http_body sample_view
      (sample_request ''GET'' (Some ''text/plain'') [(''query'', ''{hello}'')] []
         \<lparr>form = [], files = []\<rparr>)
     = Inr \<lparr>query = PStr ''{hello}'', variables = PNone, operation_name = PNone,
            protocol = Http\<rparr>"
  using parse_strategy_selection [of sample_view
      "sample_request ''POST'' (Some ''text/plain'') [] ''hello'' \<lparr>form = [], files = []\<rparr>"
      "''text/plain''" "[]"]
    parse_strategy_selection [of sample_view
      "sample_request ''GET'' (Some ''text/plain'') [(''query'', ''{hello}'')] []
         \<lparr>form = [], files = []\<rparr>" "''text/plain''" "[]"]
  by (simp add: sample_view_def sample_request_def spec_strategy_def spec_protocol_def
      apply_strategy_def make_request_data_def)

text \<open>
  C7: for a POST whose content type contains \<open>application/json\<close> and whose body decodes
  to a JSON object with a \<open>query\<close> field, the canonical request has the object's \<open>query\<close>,
  \<open>variables\<close> and \<open>operationName\<close>, the last two being null (\<^verbatim>\<open>None\<close>) when the object has
  no such field, and its protocol is \<open>http\<close>.
\<close>

theorem json_post_body_fields:
  assumes "http_method request = ''POST''"
    and "parse_content_type v (case content_type request of None \<Rightarrow> [] | Some c \<Rightarrow> c)
           = (mime, params)"
    and "str_contains ''application/json'' mime"
    and "parse_json v (get_body request) = Some (PDict body)"
    and "map_of body ''query'' = Some q"
  shows "parse_http_body v request =
    Inr \<lparr>query = q,
         variables = (case map_of body ''variables'' of None \<Rightarrow> PNone | Some x \<Rightarrow> x),
         operation_name = (case map_of body ''operationName'' of None \<Rightarrow> PNone | Some x \<Rightarrow> x),
         protocol = Http\<rparr>"
  using assms by (simp add: parse_http_body_def make_request_data_def)

theorem json_post_body_fields_witness:
  "parse_http_body sample_view
     (sample_request ''POST'' (Some ''application/json; charset=utf-8'') []
        ''{\"query\":\"{hello}\"}'' \<lparr>form = [], files = []\<rparr>)
   = Inr \<lparr>query = PStr ''{hello}'', variables = PNone, operation_name = PNone, protocol = Http\<rparr>"
  using json_post_body_fields [of
      "sample_request ''POST'' (Some ''application/json; charset=utf-8'') []
         ''{\"query\":\"{hello}\"}'' \<lparr>form = [], files = []\<rparr>"
      sample_view "''application/json''" "[]" "[(''query'', PStr ''{hello}'')]"
      "PStr ''{hello}''"]
  by (simp add: sample_view_def sample_request_def sample_json_loads_def)

text \<open>
  C8: a multipart form POST with \<open>operations\<close> decoding to
  \<open>{"query": "{ upload(file: $f) }", "variables": {"f": null}}\<close> and \<open>map\<close> decoding to
  \<open>{"f": ["variables.f"]}\<close>. When the uploaded file set has a file \<open>f\<close>, the canonical
  request's \<open>variables.f\<close> is that file's handle; when it has none, parsing fails with the
  missing-upload error, which leaves \<^verbatim>\<open>run\<close> as HTTP 400.
\<close>

theorem upload_scenario:
  assumes post: "http_method request = ''POST''"
    and ct: "parse_content_type v (case content_type request of None \<Rightarrow> [] | Some c \<Rightarrow> c)
               = (''multipart/form-data'', params)"
    and fd: "get_form_data request =
               Inr \<lparr>form = [(''operations'', PStr ops_text), (''map'', PStr map_text)],
                    files = fs\<rparr>"
    and ops: "parse_json v ops_text =
               Some (PDict [(''query'', PStr ''{ upload(file: $f) }''),
                            (''variables'', PDict [(''f'', PNone)])])"
    and mp: "parse_json v map_text = Some (PDict [(''f'', PList [PStr ''variables.f''])])"
    and admitted: "is_request_allowed v request" "\<not> should_render_graphql_ide v request" "truthy c"
  shows "parse_http_body v request =
      (case map_of fs ''f'' of
         Some file \<Rightarrow>
           Inr \<lparr>query = PStr ''{ upload(file: $f) }'', variables = PDict [(''f'', file)],
                operation_name = PNone, protocol = Http\<rparr>
       | None \<Rightarrow> Inl (HTTPException 400 ''File(s) missing in form data''))
    \<and> (map_of fs ''f'' = None \<longrightarrow>
         run v request (Some c) (Some root) =
           Inl (HTTPException 400 ''File(s) missing in form data''))"
proof -
  have pm: "parse_multipart v request =
      (case map_of fs ''f'' of
         Some file \<Rightarrow>
           Inr (PDict [(''query'', PStr ''{ upload(file: $f) }''),
                       (''variables'', PDict [(''f'', file)])])
       | None \<Rightarrow> Inl (HTTPException 400 ''File(s) missing in form data''))"
    using fd ops mp by (simp add: parse_multipart_def form_field_def split: option.split)
  have body: "parse_http_body v request =
      (case map_of fs ''f'' of
         Some file \<Rightarrow>
           Inr \<lparr>query = PStr ''{ upload(file: $f) }'', variables = PDict [(''f'', file)],
                operation_name = PNone, protocol = Http\<rparr>
       | None \<Rightarrow> Inl (HTTPException 400 ''File(s) missing in form data''))"
    using post ct pm by (simp add: parse_http_body_def make_request_data_def split: option.split)
  have "run v request (Some c) (Some root) =
          Inl (HTTPException 400 ''File(s) missing in form data'')"
    if "map_of fs ''f'' = None"
    using that body admitted by (simp add: run_execute execute_operation_def)
  with body show ?thesis by blast
qed

theorem upload_scenario_witness:
  "parse_http_body sample_view
     (sample_request ''POST'' (Some ''multipart/form-data; boundary=x'') [] []
        \<lparr>form = [(''operations'',
                  PStr ''{\"query\":\"{ upload(file: $f) }\",\"variables\":{\"f\":null}}''),
                 (''map'', PStr ''{\"f\":[\"variables.f\"]}'')],
         files = [(''f'', PFile ''upload-1'')]\<rparr>)
   = Inr \<lparr>query = PStr ''{ upload(file: $f) }'', variables = PDict [(''f'', PFile ''upload-1'')],
          operation_name = PNone, protocol = Http\<rparr>"
  using upload_scenario [of
     "sample_request ''POST'' (Some ''multipart/form-data; boundary=x'') [] []
        \<lparr>form = [(''operations'',
                  PStr ''{\"query\":\"{ upload(file: $f) }\",\"variables\":{\"f\":null}}''),
                 (''map'', PStr ''{\"f\":[\"variables.f\"]}'')],
         files = [(''f'', PFile ''upload-1'')]\<rparr>"
     sample_view "[]"
     "''{\"query\":\"{ upload(file: $f) }\",\"variables\":{\"f\":null}}''"
     "''{\"f\":[\"variables.f\"]}''" "[(''f'', PFile ''upload-1'')]" "PBool True" PNone]
  by (simp add: sample_view_def sample_request_def sample_json_loads_def)

text \<open>
  C10, as stated, fails. The claim: when \<open>operations\<close> or \<open>map\<close> is absent from the form,
  the canonical request's query is null and the request is rejected at dispatch for its
  missing query. Here only \<open>map\<close> is absent: it defaults to \<open>{}\<close>, nothing is substituted,
  and the request carries the query of \<open>operations\<close> and is answered.
\<close>

theorem absent_map_keeps_query:
  "map_of (form \<lparr>form = [(''operations'', PStr ''{\"query\":\"{hello}\"}'')], files = []\<rparr>) ''map''
     = None
   \<and> parse_http_body sample_view
     (sample_request ''POST'' (Some ''multipart/form-data'') [] []
        \<lparr>form = [(''operations'', PStr ''{\"query\":\"{hello}\"}'')], files = []\<rparr>)
     = Inr \<lparr>query = PStr ''{hello}'', variables = PNone, operation_name = PNone,
            protocol = Http\<rparr>
   \<and> run sample_view
     (sample_request ''POST'' (Some ''multipart/form-data'') [] []
        \<lparr>form = [(''operations'', PStr ''{\"query\":\"{hello}\"}'')], files = []\<rparr>) None None
     = Inr (JsonResponse (PDict [(''data'', PDict [(''hello'', PStr ''world'')])]))"
  by (simp add: sample_view_def sample_request_def sample_json_loads_def parse_http_body_def
      parse_multipart_def form_field_def make_request_data_def run_def execute_operation_def
      allowed_operation_types_def from_http_def engine_execute_def sample_kind_of_def
      sample_resolve_def)

text \<open>
  C10, amended: for every multipart/form-data POST in which the \<open>map\<close> field is absent,
  parsing does not fail for the absence: \<open>map\<close> defaults to the empty JSON object, nothing
  is substituted, and the canonical request is built from \<open>operations\<close> as it stands. When
  \<open>operations\<close> is absent as well it defaults to the empty JSON object too: the canonical
  request's query, variables and operation name are null, and the request is rejected
  only at dispatch, with the missing-query error (HTTP 400, "No GraphQL query found in
  the request").
\<close>

theorem absent_form_fields:
  assumes post: "http_method request = ''POST''"
    and ct: "parse_content_type v (case content_type request of None \<Rightarrow> [] | Some c \<Rightarrow> c)
               = (''multipart/form-data'', params)"
    and fd: "get_form_data request = Inr fd"
    and nomap: "map_of (form fd) ''map'' = None"
    and empty: "parse_json v ''{}'' = Some (PDict [])"
    and engine: "schema_execute v = engine_execute kind_of resolve"
    and admitted: "is_request_allowed v request" "\<not> should_render_graphql_ide v request" "truthy c"
  shows "(\<forall>ops. form_field v (form fd) ''operations'' = Inr ops \<longrightarrow>
            parse_http_body v request = make_request_data ops Http)
    \<and> (map_of (form fd) ''operations'' = None \<longrightarrow>
         parse_http_body v request =
           Inr \<lparr>query = PNone, variables = PNone, operation_name = PNone, protocol = Http\<rparr>
         \<and> run v request (Some c) (Some root) =
             Inl (HTTPException 400 ''No GraphQL query found in the request''))"
proof -
  have mapf: "form_field v (form fd) ''map'' = Inr (PDict [])"
    using nomap empty by (simp add: form_field_def)
  have a: "parse_http_body v request = make_request_data ops Http"
    if "form_field v (form fd) ''operations'' = Inr ops" for ops
    using that post ct fd mapf by (simp add: parse_http_body_def parse_multipart_def)
  have b: "parse_http_body v request =
           Inr \<lparr>query = PNone, variables = PNone, operation_name = PNone, protocol = Http\<rparr>"
    if "map_of (form fd) ''operations'' = None"
  proof -
    from that empty have "form_field v (form fd) ''operations'' = Inr (PDict [])"
      by (simp add: form_field_def)
    from a [OF this] show ?thesis by (simp add: make_request_data_def)
  qed
  have c: "run v request (Some c) (Some root) =
             Inl (HTTPException 400 ''No GraphQL query found in the request'')"
    if "map_of (form fd) ''operations'' = None"
    using b [OF that] post engine admitted
    by (simp add: run_execute execute_operation_def allowed_operation_types_def from_http_def
        engine_execute_def)
  from a b c show ?thesis by blast
qed

theorem absent_form_fields_witness:
  "run sample_view
     (sample_request ''POST'' (Some ''multipart/form-data'') [] [] \<lparr>form = [], files = []\<rparr>)
     (Some (PBool True)) (Some PNone)
   = Inl (HTTPException 400 ''No GraphQL query found in the request'')"
  using absent_form_fields [of
     "sample_request ''POST'' (Some ''multipart/form-data'') [] [] \<lparr>form = [], files = []\<rparr>"
     sample_view "[]" "\<lparr>form = [], files = []\<rparr>" sample_kind_of sample_resolve
     "PBool True" PNone]
  by (simp add: sample_view_def sample_request_def sample_json_loads_def)

section \<open>Multipart framing\<close>

text \<open>
  C9: encoding a payload with \<^verbatim>\<open>encode_multipart_data\<close> and the separator \<open>graphql\<close> and
  then splitting the text at the boundary line \<open>--graphql\<close> finds the boundary once, at
  the start, followed by exactly one part: the header \<open>Content-Type: application/json\<close>,
  the empty line, the JSON text of the payload and a newline; reading the part back gives
  exactly that JSON text. The same holds for a body made of several encoded payloads, one
  after the other: each is recovered, once, between its boundary line and the next. The
  JSON encoder is not in the source; what is asked of it is that its text holds no raw
  carriage return, which a JSON encoder escapes inside strings.
\<close>

theorem multipart_roundtrip:
  assumes "\<forall>d \<in> set ds. CHR 0x0D \<notin> set (encode_json v d)"
  shows "decode_multipart (concat (map (\<lambda>d. encode_multipart_data v d ''graphql'') ds))
           = map (\<lambda>d. Some (encode_json v d)) ds
    \<and> (\<forall>d \<in> set ds.
          split_text (boundary_line ''graphql'') (encode_multipart_data v d ''graphql'')
            = [[], part_header @ encode_json v d @ [CHR 0x0A]]
          \<and> decode_multipart (encode_multipart_data v d ''graphql'') = [Some (encode_json v d)])"
proof -
  have one: "split_text (boundary_line ''graphql'') (encode_multipart_data v d ''graphql'')
            = [[], part_header @ encode_json v d @ [CHR 0x0A]]"
    if "CHR 0x0D \<notin> set (encode_json v d)" for d
    using split_text_frames [of "[d]" v] that by simp
  have many: "decode_multipart (concat (map (\<lambda>d. encode_multipart_data v d ''graphql'') ds))
           = map (\<lambda>d. Some (encode_json v d)) ds"
    using split_text_frames [OF assms]
    by (simp add: decode_multipart_def part_payload_part comp_def)
  from one many assms show ?thesis
    by (simp add: decode_multipart_def part_payload_part)
qed

theorem multipart_roundtrip_witness:
  "decode_multipart
      (encode_multipart_data sample_view (PDict [(''payload'', PDict [(''data'', PInt 1)])]) ''graphql''
       @ encode_multipart_data sample_view (PDict []) ''graphql'')
     = [Some ''{\"payload\": {\"data\": 1}}'', Some ''{}'']"
  using multipart_roundtrip [of "[PDict [(''payload'', PDict [(''data'', PInt 1)])], PDict []]" sample_view]
  by (simp add: sample_view_def digits.simps)

section \<open>Facts about the multiplexer\<close>

lemma inv_start: "mux_inv (start src)"
  by (simp add: mux_inv_def start_def running_def inv_running_def inv_queue_def)

lemma inv_tick: "mux_inv s \<Longrightarrow> mux_inv (s\<lparr>clock := Suc (clock s)\<rparr>)"
  by (simp add: mux_inv_def running_def inv_running_def inv_queue_def inv_left_def)

lemma stream_advance_keeps [simp]:
  "consumer (stream_advance s) = consumer s"
  "cancelling (stream_advance s) = cancelling s"
  "trail (stream_advance s) = trail s"
  "task (stream_advance s) = task s"
  "queue (stream_advance s) = queue s"
  "heartbeat_task (stream_advance s) = heartbeat_task s"
  "out (stream_advance s) = out s"
  by (simp_all add: stream_advance_def split: list.split src_event.split prod.split)

lemma drain_put_keeps [simp]:
  "consumer (drain_put item s) = consumer s"
  "cancelling (drain_put item s) = cancelling s"
  "trail (drain_put item s) = trail s"
  "heartbeat_task (drain_put item s) = heartbeat_task s"
  "out (drain_put item s) = out s"
  by (simp_all add: drain_put_def split: option.split)

lemma drain_put_task:
  "task (drain_put item s) \<noteq> DCancelled" "task (drain_put item s) \<noteq> DFailed e"
  by (simp_all add: drain_put_def after_put_def split: option.split queue_item.split)

lemma drain_put_queue: "inv_queue s \<Longrightarrow> task s \<noteq> DFinished \<Longrightarrow> inv_queue (drain_put item s)"
  by (auto simp: inv_queue_def drain_put_def after_put_def split: option.split queue_item.split)

lemma inv_running_drain_put: "inv_running s \<Longrightarrow> inv_running (drain_put item s)"
  by (simp add: inv_running_def drain_put_task)

lemma inv_running_stream_advance: "inv_running s \<Longrightarrow> inv_running (stream_advance s)"
  by (simp add: inv_running_def)

lemma inv_queue_stream_advance: "inv_queue s \<Longrightarrow> inv_queue (stream_advance s)"
  by (simp add: inv_queue_def)

lemma drain_step_needs_task: "drain_step v s = Some s' \<Longrightarrow> \<not> task_done (task s)"
  by (auto simp: drain_step_def task_done_def split: drain_state.splits)

lemma drain_step_cases:
  assumes "drain_step v s = Some s'" and "\<not> cancelling s"
  shows "(\<exists>item. s' = drain_put item (stream_advance s)) \<or> (\<exists>item. s' = drain_put item s)
    \<or> s' = s\<lparr>task := DFinished\<rparr>"
  using assms
  by (auto simp: drain_step_def drain_on_exception_def
      split: drain_state.splits stream_step.splits option.splits)

lemma inv_drain:
  assumes inv: "mux_inv s" and st: "drain_step v s = Some s'"
  shows "mux_inv s'"
proof -
  from st have nd: "\<not> task_done (task s)" by (rule drain_step_needs_task)
  have run: "running s"
  proof (rule ccontr)
    assume "\<not> running s"
    with inv have "inv_left s" by (simp add: mux_inv_def)
    with nd show False by (simp add: inv_left_def)
  qed
  with inv have r: "inv_running s" and q: "inv_queue s" by (simp_all add: mux_inv_def)
  from nd have nf: "task s \<noteq> DFinished" by (auto simp: task_done_def)
  from r have "\<not> cancelling s" by (simp add: inv_running_def)
  from drain_step_cases [OF st this]
  have "running s' \<and> inv_running s' \<and> inv_queue s'"
  proof (elim disjE exE)
    fix item assume "s' = drain_put item (stream_advance s)"
    with run r q nf show ?thesis
      by (simp add: running_def inv_running_drain_put inv_running_stream_advance
          drain_put_queue inv_queue_stream_advance)
  next
    fix item assume "s' = drain_put item s"
    with run r q nf show ?thesis
      by (simp add: running_def inv_running_drain_put drain_put_queue)
  next
    assume "s' = s\<lparr>task := DFinished\<rparr>"
    with run r q show ?thesis
      by (simp add: running_def inv_running_def inv_queue_def)
  qed
  then show ?thesis by (simp add: mux_inv_def)
qed

lemma inv_heartbeat:
  assumes inv: "mux_inv s" and st: "heartbeat_step v s = Some s'"
  shows "mux_inv s'"
proof -
  from st have s': "s' = heartbeat_put v s" and live: "heartbeat_task s \<noteq> HCancelled"
    by (auto simp: heartbeat_step_def split: heartbeat_state.splits option.splits if_splits)
  have keep: "consumer s' = consumer s" "cancelling s' = cancelling s" "trail s' = trail s"
    "task s' = task s"
    by (simp_all add: s' heartbeat_put_def split: option.split)
  have q: "queue s' = queue s \<or> (\<exists>f. queue s' = Some (QFrame f))"
    by (simp add: s' heartbeat_put_def split: option.split)
  from inv q keep have iq: "inv_queue s'"
    unfolding mux_inv_def inv_queue_def by fastforce
  from inv keep live have "running s' \<longrightarrow> inv_running s'"
    by (simp add: mux_inv_def running_def inv_running_def)
  moreover from inv keep live have "\<not> running s' \<longrightarrow> inv_left s'"
    by (auto simp: mux_inv_def running_def inv_left_def)
  ultimately show ?thesis using iq by (simp add: mux_inv_def)
qed


lemma cancel_tasks_finished:
  "task s = DFinished \<Longrightarrow>
   cancel_tasks s =
     (None, s\<lparr>cancelling := True, trail := trail s @ teardown_order,
               heartbeat_task := HCancelled\<rparr>)"
  by (simp add: cancel_tasks_def cancel_drain_def teardown_order_def)

lemma cancel_tasks_keeps:
  assumes "cancel_tasks s = (r, s')"
  shows "queue s' = queue s" "out s' = out s" "consumer s' = consumer s" "cancelling s'"
    "clock s' = clock s"
  using assms
  by (auto simp: cancel_tasks_def cancel_drain_def drain_on_exception_def Let_def
      split: drain_state.splits option.splits)

lemma cancel_tasks_returns:
  assumes "cancel_tasks s = (None, s')"
  shows "trail s' = trail s @ teardown_order" "heartbeat_task s' = HCancelled"
    "task_done (task s')" "task s' \<noteq> DFailed e" "task s = DFinished \<longrightarrow> task s' = DFinished"
  using assms
  by (auto simp: cancel_tasks_def cancel_drain_def drain_on_exception_def Let_def
      teardown_order_def task_done_def split: drain_state.splits option.splits)

lemma cancel_tasks_raises:
  assumes "cancel_tasks s = (Some e, s')"
  shows "trail s' = trail s @ teardown_cut" "task s' = DFailed e"
    "heartbeat_task s' = heartbeat_task s"
    "task s = DFailed e \<or> task s = DAwait \<and> on_cancel (source s) = Some e"
  using assms
  by (auto simp: cancel_tasks_def cancel_drain_def drain_on_exception_def Let_def
      teardown_cut_def split: drain_state.splits option.splits)

lemma inv_leave_loop:
  assumes inv: "mux_inv s" and run: "running s" and e: "ending \<noteq> CGet" "ending \<noteq> CYield"
  shows "mux_inv (leave_loop ending s)"
proof -
  from inv run have r: "inv_running s" and q: "inv_queue s" by (simp_all add: mux_inv_def)
  obtain res s1 where c: "cancel_tasks s = (res, s1)" by (cases "cancel_tasks s")
  note k = cancel_tasks_keeps [OF c]
  show ?thesis
  proof (cases res)
    case None
    with c have c': "cancel_tasks s = (None, s1)" by simp
    note t = cancel_tasks_returns [OF c']
    have s': "leave_loop ending s = s1\<lparr>consumer := ending\<rparr>"
      by (simp add: leave_loop_def c')
    from r t have "inv_left (s1\<lparr>consumer := ending\<rparr>)"
      by (simp add: inv_left_def inv_running_def k)
    moreover from q t(5) k have "inv_queue (s1\<lparr>consumer := ending\<rparr>)"
      by (simp add: inv_queue_def)
    ultimately show ?thesis using e by (simp add: s' mux_inv_def running_def)
  next
    case (Some x)
    with c have c': "cancel_tasks s = (Some x, s1)" by simp
    note t = cancel_tasks_raises [OF c']
    have s': "leave_loop ending s = s1\<lparr>consumer := CRaised x\<rparr>"
      by (simp add: leave_loop_def c')
    from r t have "inv_left (s1\<lparr>consumer := CRaised x\<rparr>)"
      by (simp add: inv_left_def inv_running_def k task_done_def)
    moreover from q t r k have "inv_queue (s1\<lparr>consumer := CRaised x\<rparr>)"
      by (auto simp: inv_queue_def inv_running_def)
    ultimately show ?thesis by (simp add: s' mux_inv_def running_def)
  qed
qed

lemma receive_error:
  assumes "task s = DFinished" "trail s = []"
  shows "receive (QError e) s =
     s\<lparr>cancelling := True, trail := teardown_order @ teardown_order,
       heartbeat_task := HCancelled, consumer := CRaised e\<rparr>"
  using assms by (simp add: receive_def leave_loop_def cancel_tasks_finished)

lemma inv_receive:
  assumes inv: "mux_inv s" and run: "running s" and q: "queue s = Some item"
  shows "mux_inv (receive item (s\<lparr>queue := None\<rparr>))"
proof (cases item)
  case (QFrame f)
  with inv run show ?thesis
    by (auto simp: receive_def mux_inv_def running_def inv_running_def inv_queue_def)
next
  case (QError e)
  with inv q have fin: "task s = DFinished" by (simp add: mux_inv_def inv_queue_def)
  from inv run have "trail s = []" by (simp add: mux_inv_def inv_running_def)
  with fin have "receive (QError e) (s\<lparr>queue := None\<rparr>) =
      s\<lparr>queue := None, cancelling := True, trail := teardown_order @ teardown_order,
        heartbeat_task := HCancelled, consumer := CRaised e\<rparr>"
    by (simp add: receive_error)
  with QError fin show ?thesis
    by (simp add: mux_inv_def running_def inv_left_def inv_queue_def task_done_def)
qed

lemma inv_consumer:
  assumes inv: "mux_inv s" and st: "consumer_step s = Some s'"
  shows "mux_inv s'"
proof -
  from st have run: "running s"
    by (auto simp: consumer_step_def running_def split: consumer_state.splits)
  from st consider
      (recv) item where "queue s = Some item" "s' = receive item (s\<lparr>queue := None\<rparr>)"
    | (wait) "s' = s\<lparr>consumer := CGet\<rparr>"
    | (leave) "s' = leave_loop CFinished s"
    by (auto simp: consumer_step_def split: consumer_state.splits option.splits if_splits)
  then show ?thesis
  proof cases
    case recv
    with inv run show ?thesis by (simp add: inv_receive)
  next
    case wait
    with inv run show ?thesis
      by (auto simp: mux_inv_def running_def inv_running_def inv_queue_def)
  next
    case leave
    with inv run show ?thesis by (simp add: inv_leave_loop)
  qed
qed

lemma inv_abandon:
  assumes inv: "mux_inv s" and st: "abandon_step s = Some s'"
  shows "mux_inv s'"
proof -
  from st have "running s" and "s' = leave_loop CClosed s"
    by (auto simp: abandon_step_def running_def split: consumer_state.splits)
  with inv show ?thesis by (simp add: inv_leave_loop)
qed

lemma inv_step: "mux_inv s \<Longrightarrow> step v a s = Some s' \<Longrightarrow> mux_inv s'"
  by (cases a) (auto simp: step_def intro: inv_tick inv_heartbeat inv_drain inv_consumer inv_abandon)

lemma inv_exec: "mux_inv s \<Longrightarrow> exec v sched s = Some s' \<Longrightarrow> mux_inv s'"
proof (induction sched arbitrary: s)
  case Nil
  then show ?case by simp
next
  case (Cons a sched)
  from Cons.prems(2) obtain s1 where s1: "step v a s = Some s1" and rest: "exec v sched s1 = Some s'"
    by (auto split: option.splits)
  from Cons.prems(1) s1 have "mux_inv s1" by (rule inv_step)
  from Cons.IH [OF this rest] show ?case .
qed

lemma inv_reachable: "exec v sched (start src) = Some s \<Longrightarrow> mux_inv s"
  using inv_start by (rule inv_exec)

lemma leave_loop_keeps [simp]:
  "queue (leave_loop ending s) = queue s" "out (leave_loop ending s) = out s"
proof -
  obtain r s1 where c: "cancel_tasks s = (r, s1)" by (cases "cancel_tasks s")
  from cancel_tasks_keeps [OF c] c
  show "queue (leave_loop ending s) = queue s" "out (leave_loop ending s) = out s"
    by (simp_all add: leave_loop_def split: option.split)
qed









lemmas mux_simps = step_def consumer_step_def heartbeat_step_def drain_step_def abandon_step_def
  heartbeat_put_def drain_put_def after_put_def drain_on_exception_def stream_next_def
  stream_advance_def receive_def leave_loop_def cancel_tasks_def cancel_drain_def task_done_def
  start_def next_actor_def heartbeat_interval_def

section \<open>Heartbeats and results in the output\<close>




section \<open>Teardown\<close>

text \<open>
  What holds on every schedule: \<^verbatim>\<open>cancel_tasks\<close> has not started while the generator is
  in its loop, and has run whenever the generator has left it, whichever way (the drain
  task was done, an error item was pulled, or the consumer abandoned the output). It takes
  its steps in one order: set the flag, cancel the drain task, await it, cancel the
  heartbeat task, await it. A call that returns has taken all five, and the heartbeat task
  is cancelled then. A call that does not return is cut short at \<^verbatim>\<open>await task\<close>, by the
  exception the drain task ended with.
\<close>

lemma teardown_trail:
  assumes "exec v sched (start src) = Some s"
  shows "(running s \<longrightarrow> trail s = [])
    \<and> (\<not> running s \<longrightarrow>
         cancelling s \<and> task_done (task s) \<and>
         ((trail s = teardown_order \<or> trail s = teardown_order @ teardown_order) \<and>
            heartbeat_task s = HCancelled
          \<or> (\<exists>e. trail s = teardown_cut \<and> task s = DFailed e \<and> consumer s = CRaised e)))
    \<and> (\<forall>s0 s1. cancel_tasks s0 = (None, s1) \<longrightarrow>
          trail s1 = trail s0 @ teardown_order \<and> heartbeat_task s1 = HCancelled \<and>
          task_done (task s1) \<and> cancelling s1)"
proof -
  from assms have inv: "mux_inv s" by (rule inv_reachable)
  then have a: "running s \<longrightarrow> trail s = []"
    by (simp add: mux_inv_def inv_running_def)
  from inv have b: "\<not> running s \<longrightarrow>
         cancelling s \<and> task_done (task s) \<and>
         ((trail s = teardown_order \<or> trail s = teardown_order @ teardown_order) \<and>
            heartbeat_task s = HCancelled
          \<or> (\<exists>e. trail s = teardown_cut \<and> task s = DFailed e \<and> consumer s = CRaised e))"
    by (auto simp: mux_inv_def inv_left_def)
  have c: "trail s1 = trail s0 @ teardown_order \<and> heartbeat_task s1 = HCancelled \<and>
          task_done (task s1) \<and> cancelling s1"
    if "cancel_tasks s0 = (None, s1)" for s0 s1
    using cancel_tasks_returns [OF that] cancel_tasks_keeps [OF that] by simp
  from a b c show ?thesis by blast
qed

lemma teardown_exits_reached:
  "(\<exists>s. exec sample_view [Heartbeat, Consumer, Abandon] (start sample_single) = Some s
       \<and> consumer s = CClosed \<and> cancelling s \<and> task_done (task s)
       \<and> trail s = teardown_order \<and> heartbeat_task s = HCancelled)
   \<and> (\<exists>s. exec sample_view
            [Heartbeat, Consumer, Consumer, Drain, Consumer, Consumer, Drain, Consumer, Consumer]
            (start sample_single) = Some s
       \<and> consumer s = CFinished \<and> cancelling s \<and> task_done (task s)
       \<and> trail s = teardown_order \<and> heartbeat_task s = HCancelled)
   \<and> (\<exists>s. exec sample_view [Drain, Consumer] (start sample_failing) = Some s
       \<and> consumer s = CRaised (SourceError ''boom'') \<and> cancelling s \<and> task_done (task s)
       \<and> trail s = teardown_order @ teardown_order \<and> heartbeat_task s = HCancelled)"
proof -
  have a: "\<exists>s. exec sample_view sched (start src) = Some s
       \<and> consumer s = c \<and> cancelling s \<and> task_done (task s)
       \<and> trail s = t \<and> heartbeat_task s = HCancelled"
    if e: "exec sample_view sched (start src) = Some s" and c: "consumer s = c" "c \<noteq> CGet" "c \<noteq> CYield"
      and t: "trail s = t" "t \<noteq> teardown_cut" for sched src s c t
  proof -
    from c have "\<not> running s" by (simp add: running_def)
    with teardown_trail [OF e] t
    have "cancelling s \<and> task_done (task s) \<and> heartbeat_task s = HCancelled"
      by auto
    with e c t show ?thesis by blast
  qed
  have 1: "\<exists>s. exec sample_view [Heartbeat, Consumer, Abandon] (start sample_single) = Some s
       \<and> consumer s = CClosed \<and> trail s = teardown_order"
    by (simp add: mux_simps sample_single_def teardown_order_def)
  have 2: "\<exists>s. exec sample_view
            [Heartbeat, Consumer, Consumer, Drain, Consumer, Consumer, Drain, Consumer, Consumer]
            (start sample_single) = Some s
       \<and> consumer s = CFinished \<and> trail s = teardown_order"
    by (simp add: mux_simps sample_single_def teardown_order_def)
  have 3: "\<exists>s. exec sample_view [Drain, Consumer] (start sample_failing) = Some s
       \<and> consumer s = CRaised (SourceError ''boom'') \<and> trail s = teardown_order @ teardown_order"
    by (simp add: mux_simps sample_failing_def teardown_order_def)
  have ne: "teardown_order \<noteq> teardown_cut" "teardown_order @ teardown_order \<noteq> teardown_cut"
    by (simp_all add: teardown_order_def teardown_cut_def)
  from 1 obtain s1 where "exec sample_view [Heartbeat, Consumer, Abandon] (start sample_single) = Some s1"
    "consumer s1 = CClosed" "trail s1 = teardown_order" by blast
  from a [OF this(1,2) _ _ this(3) ne(1)]
  have r1: "\<exists>s. exec sample_view [Heartbeat, Consumer, Abandon] (start sample_single) = Some s
       \<and> consumer s = CClosed \<and> cancelling s \<and> task_done (task s)
       \<and> trail s = teardown_order \<and> heartbeat_task s = HCancelled"
    by simp
  from 2 obtain s2 where "exec sample_view
            [Heartbeat, Consumer, Consumer, Drain, Consumer, Consumer, Drain, Consumer, Consumer]
            (start sample_single) = Some s2"
    "consumer s2 = CFinished" "trail s2 = teardown_order" by blast
  from a [OF this(1,2) _ _ this(3) ne(1)]
  have r2: "\<exists>s. exec sample_view
            [Heartbeat, Consumer, Consumer, Drain, Consumer, Consumer, Drain, Consumer, Consumer]
            (start sample_single) = Some s
       \<and> consumer s = CFinished \<and> cancelling s \<and> task_done (task s)
       \<and> trail s = teardown_order \<and> heartbeat_task s = HCancelled"
    by simp
  from 3 obtain s3 where "exec sample_view [Drain, Consumer] (start sample_failing) = Some s3"
    "consumer s3 = CRaised (SourceError ''boom'')" "trail s3 = teardown_order @ teardown_order"
    by blast
  from a [OF this(1,2) _ _ this(3) ne(2)]
  have r3: "\<exists>s. exec sample_view [Drain, Consumer] (start sample_failing) = Some s
       \<and> consumer s = CRaised (SourceError ''boom'') \<and> cancelling s \<and> task_done (task s)
       \<and> trail s = teardown_order @ teardown_order \<and> heartbeat_task s = HCancelled"
    by simp
  from r1 r2 r3 show ?thesis by blast
qed

text \<open>
  C3 fails on the code. The claim: on every exit path of the loop, teardown sets the
  flag, cancels the drain task and awaits it, then cancels the heartbeat task and awaits
  it. \<^verbatim>\<open>cancel_tasks\<close> suppresses \<^verbatim>\<open>CancelledError\<close> alone around \<^verbatim>\<open>await task\<close> (lines
  275-276). Here the consumer abandons the output while the drain task waits for a
  subscription that raises from its clean-up when it is cancelled. The flag is set, so the
  \<^verbatim>\<open>except\<close> block of \<^verbatim>\<open>drain\<close> re-raises (lines 257-258); \<^verbatim>\<open>await task\<close> raises the same
  exception and lines 278-281 are not reached. The generator ends with that exception,
  the heartbeat task is neither cancelled nor awaited: it is asleep, and five seconds
  later it wakes and puts a frame into the queue.
\<close>

theorem teardown_cut_short:
  "(\<exists>s. exec sample_view [Heartbeat, Consumer, Abandon] (start sample_unclean) = Some s
       \<and> consumer s = CRaised (SourceError ''cleanup'')
       \<and> task s = DFailed (SourceError ''cleanup'')
       \<and> trail s = teardown_cut \<and> heartbeat_task s = HSleep 5)
   \<and> (\<exists>s. exec sample_view
              [Heartbeat, Consumer, Abandon, Tick, Tick, Tick, Tick, Tick, Heartbeat]
              (start sample_unclean) = Some s
       \<and> queue s = Some (QFrame (heartbeat_frame sample_view))
       \<and> heartbeat_task s = HSleep 10)"
  by (simp add: mux_simps sample_unclean_def teardown_cut_def)

section \<open>The closing frame\<close>

text \<open>
  C4 fails on the code. The claim: when the source is exhausted without error the output
  ends with exactly one closing frame, and every frame queued before the drain producer
  completed is delivered. The loop of \<^verbatim>\<open>merged\<close> tests \<^verbatim>\<open>task.done()\<close> alone (line 284).
  When the drain task puts the closing frame and returns while the generator is suspended
  at its \<^verbatim>\<open>yield\<close> (its consumer is still writing the previous frame), the next test ends
  the loop with the closing frame in the queue: the output is the heartbeat and the one
  result, and no closing frame.
\<close>

theorem closing_frame_lost:
  "\<exists>s. exec sample_view [Heartbeat, Drain, Consumer, Drain, Drain, Consumer, Drain, Consumer]
          (start sample_single) = Some s
       \<and> consumer s = CFinished \<and> task s = DFinished
       \<and> out s = [heartbeat_frame sample_view, result_frame sample_view (sample_result ''one'')]
       \<and> queue s = Some (QFrame (closing_frame ''graphql''))
       \<and> closing_frame ''graphql'' \<notin> set (out s)"
  by (simp add: mux_simps sample_single_def closing_frame_def heartbeat_frame_def
      result_frame_def encode_multipart_data_def)

text \<open>
  The same subscription read by a consumer that asks for each next frame at once: the
  generator is waiting in \<^verbatim>\<open>get\<close> when the drain task puts the closing frame, and the
  frame is delivered.
\<close>

lemma closing_frame_delivered:
  "\<exists>s. exec sample_view
          [Heartbeat, Drain, Consumer, Consumer, Drain, Consumer, Consumer, Drain, Consumer, Consumer]
          (start sample_single) = Some s
       \<and> consumer s = CFinished \<and> task s = DFinished
       \<and> out s = [heartbeat_frame sample_view, result_frame sample_view (sample_result ''one''),
                  closing_frame ''graphql'']
       \<and> queue s = None"
  by (simp add: mux_simps sample_single_def)

section \<open>Failure of the drain producer\<close>

text \<open>
  C5: when \<^verbatim>\<open>stream()\<close> raises \<open>e\<close> in the drain task, the flag is not set (it is never
  set while the task runs in its loop), and the task puts \<open>(True, e)\<close> into the queue, at
  once when the slot is free and otherwise as soon as it is, and returns. The generator,
  on pulling \<open>(True, e)\<close>, runs \<^verbatim>\<open>cancel_tasks\<close> (twice: in the loop body and in
  \<^verbatim>\<open>finally\<close>), yields nothing more and ends with \<open>e\<close>. With the flag set the
  \<^verbatim>\<open>except\<close> block re-raises \<open>e\<close> inside the drain task and leaves the queue alone; that
  is what happens when \<^verbatim>\<open>cancel_tasks\<close> cancels a task whose subscription raises on being
  cancelled.
\<close>

theorem drain_failure_paths:
  assumes "exec v sched (start src) = Some s"
  shows "(task s = DAwait \<and> stream_next v s = Raises e \<longrightarrow>
           \<not> cancelling s \<and>
           (queue s = None \<longrightarrow>
              (\<exists>s'. step v Drain s = Some s' \<and> queue s' = Some (QError e) \<and>
                    task s' = DFinished \<and> out s' = out s)) \<and>
           (queue s \<noteq> None \<longrightarrow>
              (\<exists>s'. step v Drain s = Some s' \<and> queue s' = queue s \<and>
                    task s' = DPut (QError e))))
    \<and> (task s = DPut (QError e) \<and> queue s = None \<longrightarrow>
          (\<exists>s'. step v Drain s = Some s' \<and> queue s' = Some (QError e) \<and> task s' = DFinished))
    \<and> (consumer s = CGet \<and> queue s = Some (QError e) \<longrightarrow>
          (\<exists>s'. step v Consumer s = Some s' \<and> consumer s' = CRaised e \<and>
                trail s' = teardown_order @ teardown_order \<and>
                heartbeat_task s' = HCancelled \<and> out s' = out s))
    \<and> (\<forall>s0. cancelling s0 \<longrightarrow> drain_on_exception e s0 = s0\<lparr>task := DFailed e\<rparr>)
    \<and> (task s = DAwait \<and> on_cancel (source s) = Some e \<longrightarrow>
          (\<exists>s'. cancel_tasks s = (Some e, s') \<and> task s' = DFailed e \<and> queue s' = queue s))"
proof -
  from assms have inv: "mux_inv s" by (rule inv_reachable)
  have nc: "\<not> cancelling s" if "task s = DAwait"
  proof -
    from that inv have "running s" by (auto simp: mux_inv_def inv_left_def task_done_def)
    with inv show ?thesis by (simp add: mux_inv_def inv_running_def)
  qed
  have a: "\<not> cancelling s \<and>
           (queue s = None \<longrightarrow>
              (\<exists>s'. step v Drain s = Some s' \<and> queue s' = Some (QError e) \<and>
                    task s' = DFinished \<and> out s' = out s)) \<and>
           (queue s \<noteq> None \<longrightarrow>
              (\<exists>s'. step v Drain s = Some s' \<and> queue s' = queue s \<and>
                    task s' = DPut (QError e)))"
    if "task s = DAwait" "stream_next v s = Raises e"
    using that nc
    by (auto simp: step_def drain_step_def drain_on_exception_def drain_put_def after_put_def)
  have b: "\<exists>s'. step v Drain s = Some s' \<and> queue s' = Some (QError e) \<and> task s' = DFinished"
    if "task s = DPut (QError e)" "queue s = None"
    using that by (simp add: step_def drain_step_def drain_put_def after_put_def)
  have c: "\<exists>s'. step v Consumer s = Some s' \<and> consumer s' = CRaised e \<and>
                trail s' = teardown_order @ teardown_order \<and>
                heartbeat_task s' = HCancelled \<and> out s' = out s"
    if "consumer s = CGet" "queue s = Some (QError e)"
  proof -
    from that inv have fin: "task s = DFinished" by (simp add: mux_inv_def inv_queue_def)
    from that inv have "trail s = []" by (simp add: mux_inv_def running_def inv_running_def)
    with fin that show ?thesis
      by (simp add: step_def consumer_step_def receive_error)
  qed
  have d: "drain_on_exception e s0 = s0\<lparr>task := DFailed e\<rparr>" if "cancelling s0" for s0
    using that by (simp add: drain_on_exception_def)
  have f: "\<exists>s'. cancel_tasks s = (Some e, s') \<and> task s' = DFailed e \<and> queue s' = queue s"
    if "task s = DAwait" "on_cancel (source s) = Some e"
    using that by (simp add: cancel_tasks_def cancel_drain_def drain_on_exception_def)
  from a b c d f show ?thesis by blast
qed

theorem drain_failure_paths_witness:
  "\<exists>s s'. exec sample_view [Drain] (start sample_failing) = Some s
       \<and> queue s = Some (QError (SourceError ''boom''))
       \<and> step sample_view Consumer s = Some s'
       \<and> consumer s' = CRaised (SourceError ''boom'')
       \<and> heartbeat_task s' = HCancelled"
proof -
  obtain s where e: "exec sample_view [Drain] (start sample_failing) = Some s"
    and q: "queue s = Some (QError (SourceError ''boom''))" and c: "consumer s = CGet"
    by (simp add: mux_simps sample_failing_def)
  from drain_failure_paths [OF e, of "SourceError ''boom''"] q c
  obtain s' where "step sample_view Consumer s = Some s'"
    "consumer s' = CRaised (SourceError ''boom'')" "heartbeat_task s' = HCancelled"
    by blast
  with e q show ?thesis by blast
qed

end
